theory Spec2Isabelle
  imports Main "HOL-Library.AList"
begin

section \<open>JavaScript values and strings\<close>

text \<open>
  The engine is a TypeScript class. Its strings are modelled as \<^typ>\<open>string\<close>: a list of
  code units below 256. Values supplied by the caller (\<open>data: unknown\<close>) are
  the JSON-like values of \<open>jsval\<close>; \<open>JNum\<close> stands for an integral number
  whose decimal form is what \<open>String(value)\<close> prints. An object is the list of its own
  properties.
\<close>

datatype jsval =
    JUndefined
  | JNull
  | JBool bool
  | JNum int
  | JStr string
  | JArr "jsval list"
  | JObj "(string \<times> jsval) list"

type_synonym obj = "(string \<times> jsval) list"

definition digitChar :: "nat \<Rightarrow> char" where
  "digitChar n = ''0123456789'' ! n"

function showNat :: "nat \<Rightarrow> string" where
  "showNat n = (if n < 10 then [digitChar n] else showNat (n div 10) @ [digitChar (n mod 10)])"
  by pat_completeness auto
termination
  by (relation "measure id") auto

declare showNat.simps [simp del]

definition showInt :: "int \<Rightarrow> string" where
  "showInt i = (if i < 0 then CHR ''-'' # showNat (nat (- i)) else showNat (nat i))"

fun join :: "string \<Rightarrow> string list \<Rightarrow> string" where
  "join sep [] = []"
| "join sep [x] = x"
| "join sep (x # y # ys) = x @ sep @ join sep (y # ys)"

text \<open>\<open>String(value)\<close>; an array prints its elements joined by commas, with
  \<open>null\<close> and \<open>undefined\<close> elements printed as nothing.\<close>

fun String_of :: "jsval \<Rightarrow> string" where
  "String_of JUndefined = ''undefined''"
| "String_of JNull = ''null''"
| "String_of (JBool b) = (if b then ''true'' else ''false'')"
| "String_of (JNum n) = showInt n"
| "String_of (JStr s) = s"
| "String_of (JArr xs) =
     join '','' (map (\<lambda>v. if v = JUndefined \<or> v = JNull then [] else String_of v) xs)"
| "String_of (JObj kv) = ''[object Object]''"

text \<open>\<open>Boolean(value)\<close>.\<close>

fun Boolean_of :: "jsval \<Rightarrow> bool" where
  "Boolean_of JUndefined = False"
| "Boolean_of JNull = False"
| "Boolean_of (JBool b) = b"
| "Boolean_of (JNum n) = (n \<noteq> 0)"
| "Boolean_of (JStr s) = (s \<noteq> [])"
| "Boolean_of (JArr xs) = True"
| "Boolean_of (JObj kv) = True"

fun isArray :: "jsval \<Rightarrow> bool" where
  "isArray (JArr xs) = True"
| "isArray v = False"

text \<open>\<open>typeof v === 'object'\<close>.\<close>

fun typeofObject :: "jsval \<Rightarrow> bool" where
  "typeofObject JNull = True"
| "typeofObject (JArr xs) = True"
| "typeofObject (JObj kv) = True"
| "typeofObject v = False"

text \<open>The own enumerable properties that object spread and \<open>Object.assign\<close> copy:
  the properties of an object, the indices of an array or of a string.\<close>

fun indexed :: "nat \<Rightarrow> 'a list \<Rightarrow> (nat \<times> 'a) list" where
  "indexed i [] = []"
| "indexed i (x # xs) = (i, x) # indexed (Suc i) xs"

fun ownProperties :: "jsval \<Rightarrow> obj" where
  "ownProperties (JObj kv) = kv"
| "ownProperties (JArr xs) = map (\<lambda>(i, v). (showNat i, v)) (indexed 0 xs)"
| "ownProperties (JStr s) = map (\<lambda>(i, c). (showNat i, JStr [c])) (indexed 0 s)"
| "ownProperties v = []"

text \<open>\<open>{...a, ...b}\<close> and \<open>Object.assign(a, b)\<close>: the properties of \<open>b\<close> are written
  into \<open>a\<close> one after the other.\<close>

definition assign :: "obj \<Rightarrow> obj \<Rightarrow> obj" where
  "assign a b = foldl (\<lambda>acc (k, v). AList.update k v acc) a b"

subsection \<open>Character classes\<close>

definition isDigit :: "char \<Rightarrow> bool" where
  "isDigit c = (let n = (of_char c :: nat) in 48 \<le> n \<and> n \<le> 57)"

definition isAlpha :: "char \<Rightarrow> bool" where
  "isAlpha c = (let n = (of_char c :: nat) in (65 \<le> n \<and> n \<le> 90) \<or> (97 \<le> n \<and> n \<le> 122))"

text \<open>\<open>\w\<close>\<close>

definition isWord :: "char \<Rightarrow> bool" where
  "isWord c = (isAlpha c \<or> isDigit c \<or> c = CHR ''_'')"

text \<open>\<open>[\w\-]\<close>\<close>

definition isWordDash :: "char \<Rightarrow> bool" where
  "isWordDash c = (isWord c \<or> c = CHR ''-'')"

text \<open>\<open>\s\<close>, which is also what \<open>trim()\<close> strips: tab, line feed, vertical tab, form feed,
  carriage return, space and no-break space are the white space below 256.\<close>

definition isSpace :: "char \<Rightarrow> bool" where
  "isSpace c = ((of_char c :: nat) \<in> {9, 10, 11, 12, 13, 32, 160})"

definition trimStart :: "string \<Rightarrow> string" where
  "trimStart s = dropWhile isSpace s"

definition trim :: "string \<Rightarrow> string" where
  "trim s = rev (dropWhile isSpace (rev (dropWhile isSpace s)))"

text \<open>\<open>toLowerCase\<close> on the code units below 256: the letters \<open>A\<close> to \<open>Z\<close> and
  the capital letters from 192 to 222 (215 is the multiplication sign) move up by 32, which
  sets the bit of value 32.\<close>

definition lowerChar :: "char \<Rightarrow> char" where
  "lowerChar c = (let n = (of_char c :: nat) in
     if (65 \<le> n \<and> n \<le> 90) \<or> (192 \<le> n \<and> n \<le> 222 \<and> n \<noteq> 215)
     then Char (digit0 c) (digit1 c) (digit2 c) (digit3 c) (digit4 c) True (digit6 c) (digit7 c)
     else c)"

definition toLowerCase :: "string \<Rightarrow> string" where
  "toLowerCase s = map lowerChar s"

section \<open>Regular expressions\<close>

text \<open>
  The engine finds its directives with JavaScript regular expressions. A pattern is a value
  of \<open>rx\<close>; \<open>rxm\<close> is the backtracking matcher: it returns, in the order in which
  backtracking tries them, the states in which a match of the pattern can end. A state is the
  text before the position (reversed), the text after it, and the captures made so far.
\<close>

datatype rx =
    Lit string
  | Cls "char \<Rightarrow> bool"
  | Seq rx rx
  | Alt rx rx
  | Star rx
  | StarLazy rx
  | Group nat rx
  | Backref nat
  | WordB
  | Bol
  | Eol

type_synonym captures = "(nat \<times> string) list"
type_synonym mstate = "string \<times> string \<times> captures"

definition wordBoundary :: "string \<Rightarrow> string \<Rightarrow> bool" where
  "wordBoundary b a =
     ((case b of [] \<Rightarrow> False | x # _ \<Rightarrow> isWord x) \<noteq> (case a of [] \<Rightarrow> False | y # _ \<Rightarrow> isWord y))"

definition matchLit :: "string \<Rightarrow> mstate \<Rightarrow> mstate list" where
  "matchLit s st = (case st of (b, a, c) \<Rightarrow>
     if take (length s) a = s then [(rev s @ b, drop (length s) a, c)] else [])"

definition progress :: "mstate \<Rightarrow> mstate \<Rightarrow> bool" where
  "progress st st' = (length (fst (snd st')) < length (fst (snd st)))"

function (sequential) rxm :: "rx \<Rightarrow> mstate \<Rightarrow> mstate list" where
  "rxm (Lit s) st = matchLit s st"
| "rxm (Cls P) (b, [], c) = []"
| "rxm (Cls P) (b, x # a, c) = (if P x then [(x # b, a, c)] else [])"
| "rxm (Seq r1 r2) st = concat (map (rxm r2) (rxm r1 st))"
| "rxm (Alt r1 r2) st = rxm r1 st @ rxm r2 st"
| "rxm (Star r) st = concat (map (rxm (Star r)) (filter (progress st) (rxm r st))) @ [st]"
| "rxm (StarLazy r) st = st # concat (map (rxm (StarLazy r)) (filter (progress st) (rxm r st)))"
| "rxm (Group n r) (b, a, c) =
     map (\<lambda>(b', a', c'). (b', a', (n, take (length a - length a') a) # c')) (rxm r (b, a, c))"
| "rxm (Backref n) (b, a, c) =
     (case map_of c n of None \<Rightarrow> [(b, a, c)] | Some s \<Rightarrow> matchLit s (b, a, c))"
| "rxm WordB (b, a, c) = (if wordBoundary b a then [(b, a, c)] else [])"
| "rxm Bol (b, a, c) = (if b = [] then [(b, a, c)] else [])"
| "rxm Eol (b, a, c) = (if a = [] then [(b, a, c)] else [])"
  by pat_completeness auto
termination
  by (relation "measures [\<lambda>(r, st). size r, \<lambda>(r, st). length (fst (snd st))]")
     (auto simp: progress_def)

definition Plus :: "rx \<Rightarrow> rx" where
  "Plus r = Seq r (Star r)"

definition PlusLazy :: "rx \<Rightarrow> rx" where
  "PlusLazy r = Seq r (StarLazy r)"

fun seqs :: "rx list \<Rightarrow> rx" where
  "seqs [] = Lit []"
| "seqs [r] = r"
| "seqs (r # rs) = Seq r (seqs rs)"

text \<open>The value of a capture group in a match (the empty string when the group took no part).\<close>

definition grp :: "captures \<Rightarrow> nat \<Rightarrow> string" where
  "grp c n = (case map_of c n of None \<Rightarrow> [] | Some s \<Rightarrow> s)"

text \<open>\<open>regex.exec\<close> at a fixed position: the first way to match, as the matched text, the
  state after it and the captures.\<close>

definition matchAt :: "rx \<Rightarrow> string \<Rightarrow> string \<Rightarrow> (string \<times> string \<times> string \<times> captures) option" where
  "matchAt r b a = (case rxm r (b, a, []) of
      [] \<Rightarrow> None
    | (b', a', c) # _ \<Rightarrow> Some (take (length a - length a') a, b', a', c))"


section \<open>The host: expression evaluation\<close>

text \<open>
  \<open>safeEval\<close> hands the expression to the JavaScript engine:
  \<^verbatim>\<open>new Function('scope', `with (scope) { return ( ${expression} ); }`)\<close>.
  The host is not part of the repository. Its behaviour is fixed here on two kinds of
  expression text and left to a parameter on every other text:
  \<^item> a text of parentheses and white space only has no operand and is rejected by the
    parser (a \<open>SyntaxError\<close>);
  \<^item> a dotted path \<open>a.b.c\<close> of plain identifiers is a chain of property reads that
    starts at the \<open>with\<close> scope. Reading a property of \<open>undefined\<close> or \<open>null\<close>
    throws a \<open>TypeError\<close>; an own property of an object is its value; a missing one is
    \<open>undefined\<close>; \<open>length\<close> of an array or a string is its length.
  Reserved words, the members every object inherits from \<open>Object.prototype\<close> and
  properties of other primitive values are not paths in this sense: there, and on every
  other expression text, the result is what the parameter \<open>jsEngine\<close> of the host gives
  for the expression text and the scope's \<open>get\<close> trap.
\<close>

datatype js_error = SyntaxError | TypeError | HostError string

datatype property_key = PName string | PSymbolUnscopables

record host =
  globalThis :: obj
  jsEngine :: "string \<Rightarrow> (property_key \<Rightarrow> jsval) \<Rightarrow> js_error + jsval"

datatype expr = Ident string | Member expr string

datatype parsed = Parsed expr | Malformed | Other

definition isIdentStart :: "char \<Rightarrow> bool" where
  "isIdentStart c = (isAlpha c \<or> c = CHR ''_'' \<or> c = CHR ''$'')"

definition isIdentPart :: "char \<Rightarrow> bool" where
  "isIdentPart c = (isIdentStart c \<or> isDigit c)"

fun isIdentifierName :: "string \<Rightarrow> bool" where
  "isIdentifierName [] = False"
| "isIdentifierName (c # cs) = (isIdentStart c \<and> list_all isIdentPart cs)"

definition reservedWords :: "string list" where
  "reservedWords = [''break'', ''case'', ''catch'', ''class'', ''const'', ''continue'',
     ''debugger'', ''default'', ''delete'', ''do'', ''else'', ''enum'', ''export'', ''extends'',
     ''false'', ''finally'', ''for'', ''function'', ''if'', ''import'', ''in'', ''instanceof'',
     ''new'', ''null'', ''return'', ''super'', ''switch'', ''this'', ''throw'', ''true'', ''try'',
     ''typeof'', ''var'', ''void'', ''while'', ''with'', ''let'', ''static'', ''yield'', ''await'',
     ''async'', ''implements'', ''interface'', ''package'', ''private'', ''protected'', ''public'',
     ''arguments'', ''eval'']"

definition objectPrototypeNames :: "string list" where
  "objectPrototypeNames = [''constructor'', ''hasOwnProperty'', ''isPrototypeOf'',
     ''propertyIsEnumerable'', ''toLocaleString'', ''toString'', ''valueOf'', ''__proto__'',
     ''__defineGetter__'', ''__defineSetter__'', ''__lookupGetter__'', ''__lookupSetter__'']"

definition isPlainIdentifier :: "string \<Rightarrow> bool" where
  "isPlainIdentifier s =
     (isIdentifierName s \<and> s \<notin> set reservedWords \<and> s \<notin> set objectPrototypeNames)"

fun splitDots :: "string \<Rightarrow> string list" where
  "splitDots [] = [[]]"
| "splitDots (c # cs) =
     (if c = CHR ''.'' then [] # splitDots cs
      else (case splitDots cs of [] \<Rightarrow> [[c]] | w # ws \<Rightarrow> (c # w) # ws))"

definition parseExpression :: "string \<Rightarrow> parsed" where
  "parseExpression s =
     (if list_all (\<lambda>c. c = CHR ''('' \<or> c = CHR '')'' \<or> isSpace c) s then Malformed
      else (case splitDots s of
              [] \<Rightarrow> Other
            | x # xs \<Rightarrow>
                if isPlainIdentifier x \<and> list_all isPlainIdentifier xs
                then Parsed (foldl Member (Ident x) xs) else Other))"

fun getMember :: "jsval \<Rightarrow> string \<Rightarrow> (js_error + jsval) option" where
  "getMember JUndefined p = Some (Inl TypeError)"
| "getMember JNull p = Some (Inl TypeError)"
| "getMember (JObj kv) p =
     (case map_of kv p of Some v \<Rightarrow> Some (Inr v) | None \<Rightarrow> Some (Inr JUndefined))"
| "getMember (JArr xs) p =
     (if p = ''length'' then Some (Inr (JNum (int (length xs)))) else None)"
| "getMember (JStr s) p =
     (if p = ''length'' then Some (Inr (JNum (int (length s)))) else None)"
| "getMember v p = None"

text \<open>An identifier inside \<open>with (scope)\<close>: the \<open>has\<close> trap answers \<open>true\<close> for every
  name, the engine then reads \<open>Symbol.unscopables\<close> and, as that is \<open>undefined\<close>, the
  name itself, both through the \<open>get\<close> trap.\<close>

fun evalExpr :: "(property_key \<Rightarrow> jsval) \<Rightarrow> expr \<Rightarrow> (js_error + jsval) option" where
  "evalExpr scope (Ident x) =
     (case scope PSymbolUnscopables of
        JUndefined \<Rightarrow> Some (Inr (scope (PName x)))
      | _ \<Rightarrow> None)"
| "evalExpr scope (Member e p) =
     (case evalExpr scope e of
        None \<Rightarrow> None
      | Some (Inl err) \<Rightarrow> Some (Inl err)
      | Some (Inr v) \<Rightarrow> getMember v p)"

definition newFunctionCall :: "host \<Rightarrow> string \<Rightarrow> (property_key \<Rightarrow> jsval) \<Rightarrow> js_error + jsval" where
  "newFunctionCall h expression scope =
     (case parseExpression expression of
        Malformed \<Rightarrow> Inl SyntaxError
      | Other \<Rightarrow> jsEngine h expression scope
      | Parsed e \<Rightarrow>
          (case evalExpr scope e of
             Some r \<Rightarrow> r
           | None \<Rightarrow> jsEngine h expression scope))"

section \<open>The template engine\<close>

subsection \<open>Errors\<close>

text \<open>Every \<open>throw new Error(...)\<close> of the engine, with the values its message is built from.\<close>

datatype error =
    TemplateNotFound string
  | CyclicInclude "string list"
  | RenderDepthExceeded
  | ExpressionEvaluationFailed string js_error

text \<open>The message of the thrown \<open>Error\<close>; \<open>hostMessage\<close> is the message text of the
  host's own exception.\<close>

fun errorMessage :: "(js_error \<Rightarrow> string) \<Rightarrow> error \<Rightarrow> string" where
  "errorMessage hostMessage (TemplateNotFound templateName) =
     ''Template not found: '' @ templateName"
| "errorMessage hostMessage (CyclicInclude chain) =
     ''Cyclic include detected: '' @ join '' -> '' chain"
| "errorMessage hostMessage RenderDepthExceeded =
     ''Template render depth exceeded. Potential infinite recursion.''"
| "errorMessage hostMessage (ExpressionEvaluationFailed expression cause) =
     ''Expression evaluation failed for '' @ [CHR 0x22] @ expression @ [CHR 0x22] @ '': ''
       @ hostMessage cause"

text \<open>A computation of the engine returns a value or throws; \<open>None\<close> is the model's
  recursion budget running out before either.\<close>

type_synonym 'a result = "(error + 'a) option"

definition bindR :: "'a result \<Rightarrow> ('a \<Rightarrow> 'b result) \<Rightarrow> 'b result" where
  "bindR m k = (case m of None \<Rightarrow> None | Some (Inl e) \<Rightarrow> Some (Inl e) | Some (Inr x) \<Rightarrow> k x)"

definition returnR :: "'a \<Rightarrow> 'a result" where
  "returnR x = Some (Inr x)"

definition liftE :: "error + 'a \<Rightarrow> 'a result" where
  "liftE r = Some r"

subsection \<open>String.prototype.replace with a global pattern\<close>

text \<open>
  \<open>replaceCb r f b a s\<close> rewrites the text \<open>a\<close> (with \<open>b\<close> before it): at each position,
  from left to right, the first match of \<open>r\<close> is handed to the callback \<open>f\<close> (matched
  text, captures) and replaced by what \<open>f\<close> returns, and the search goes on behind the
  match; a character at which nothing matches is copied. The callback may throw, and it
  threads the variables it assigns (\<open>didReplace\<close>) as the state \<open>s\<close>. After an empty
  match the search moves on by one character.
\<close>

function replaceCb ::
  "rx \<Rightarrow> (string \<Rightarrow> captures \<Rightarrow> 's \<Rightarrow> (string \<times> 's) result) \<Rightarrow> string \<Rightarrow> string \<Rightarrow> 's
     \<Rightarrow> (string \<times> 's) result" where
  "replaceCb r f b a s =
     (case matchAt r b a of
        None \<Rightarrow>
          (case a of
             [] \<Rightarrow> returnR ([], s)
           | x # a' \<Rightarrow> bindR (replaceCb r f (x # b) a' s) (\<lambda>(out, s'). returnR (x # out, s')))
      | Some (full, b', a', c) \<Rightarrow>
          if length a' < length a then
            bindR (f full c s) (\<lambda>(rep, s').
            bindR (replaceCb r f b' a' s') (\<lambda>(out, s''). returnR (rep @ out, s'')))
          else
            bindR (f full c s) (\<lambda>(rep, s').
              case a of
                [] \<Rightarrow> returnR (rep, s')
              | x # a'' \<Rightarrow>
                  bindR (replaceCb r f (x # b) a'' s') (\<lambda>(out, s''). returnR (rep @ x # out, s''))))"
  by pat_completeness auto
termination
  by (relation "measure (\<lambda>(r, f, b, a, s). length a)") auto

declare replaceCb.simps [simp del]

text \<open>Replacement by a fixed string (none of the engine's replacement strings has a \<open>$\<close>).\<close>

definition replaceStr :: "rx \<Rightarrow> string \<Rightarrow> string \<Rightarrow> string" where
  "replaceStr r rep str =
     (case replaceCb r (\<lambda>full c (u::unit). returnR (rep, u)) [] str () of
        Some (Inr (out, u)) \<Rightarrow> out
      | _ \<Rightarrow> str)"

text \<open>\<open>str.match(r)\<close> for a pattern without the global flag: the first match, searching
  from the left.\<close>

fun search :: "rx \<Rightarrow> string \<Rightarrow> string \<Rightarrow> captures option" where
  "search r b [] = (case matchAt r b [] of None \<Rightarrow> None | Some (full, b', a', c) \<Rightarrow> Some c)"
| "search r b (x # a) =
     (case matchAt r b (x # a) of
        None \<Rightarrow> search r (x # b) a
      | Some (full, b', a', c) \<Rightarrow> Some c)"

text \<open>The loop \<open>while ((match = r.exec(str)) !== null)\<close> over a global pattern: all
  matches from left to right.\<close>

function execAll :: "rx \<Rightarrow> string \<Rightarrow> string \<Rightarrow> captures list" where
  "execAll r b a =
     (case matchAt r b a of
        None \<Rightarrow> (case a of [] \<Rightarrow> [] | x # a' \<Rightarrow> execAll r (x # b) a')
      | Some (full, b', a', c) \<Rightarrow>
          if length a' < length a then c # execAll r b' a'
          else (case a of [] \<Rightarrow> [c] | x # a'' \<Rightarrow> c # execAll r (x # b) a''))"
  by pat_completeness auto
termination
  by (relation "measure (\<lambda>(r, b, a). length a)") auto

declare execAll.simps [simp del]


subsection \<open>The engine and its patterns\<close>

record template_record =
  name :: string
  filePath :: string
  content :: string

text \<open>The fields of the class; \<open>templateNameToRecord\<close> is the \<open>Map\<close> from normalized
  name to record.\<close>

record engine =
  directories :: "string list"
  extensions :: "string list"
  nameDirective :: rx
  caseInsensitiveNames :: bool
  templateNameToRecord :: "(string \<times> template_record) list"

definition normalizeName :: "engine \<Rightarrow> string \<Rightarrow> string" where
  "normalizeName eng nm = (if caseInsensitiveNames eng then toLowerCase (trim nm) else trim nm)"

definition anyChar :: "char \<Rightarrow> bool" where
  "anyChar c = True"

definition notGt :: "char \<Rightarrow> bool" where
  "notGt c = (c \<noteq> CHR ''>'')"

definition notQuote :: "char \<Rightarrow> bool" where
  "notQuote c = (c \<noteq> CHR 0x22)"

definition notBrace :: "char \<Rightarrow> bool" where
  "notBrace c = (c \<noteq> CHR ''}'')"

text \<open>\<open>[A-Za-z][\w\-]*\<close>\<close>

definition tagNameRx :: rx where
  "tagNameRx = Seq (Cls isAlpha) (Star (Cls isWordDash))"

text \<open>\<^verbatim>\<open>/<([A-Za-z][\w\-]*)\s*([^>]*)\/>/g\<close>\<close>

definition includeTagRegex :: rx where
  "includeTagRegex = seqs [Lit ''<'', Group 1 tagNameRx, Star (Cls isSpace),
     Group 2 (Star (Cls notGt)), Lit ''/>'']"

text \<open>\<^verbatim>\<open>/<([A-Za-z][\w\-]*)\b([^>]*)\bx-if=\"([^\"]+)\"([^>]*)>([\s\S]*?)<\/\1>/g\<close>\<close>

definition ifRegex :: rx where
  \<open>ifRegex = seqs [Lit ''<'', Group 1 tagNameRx, WordB, Group 2 (Star (Cls notGt)), WordB,
     Lit ''x-if="'', Group 3 (Plus (Cls notQuote)), Lit ''"'', Group 4 (Star (Cls notGt)),
     Lit ''>'', Group 5 (StarLazy (Cls anyChar)), Lit ''</'', Backref 1, Lit ''>'']\<close>

text \<open>\<^verbatim>\<open>/<([A-Za-z][\w\-]*)\b([^>]*)\bx-for=\"([^\"]+)\"([^>]*)>([\s\S]*?)<\/\1>/g\<close>\<close>

definition forRegex :: rx where
  \<open>forRegex = seqs [Lit ''<'', Group 1 tagNameRx, WordB, Group 2 (Star (Cls notGt)), WordB,
     Lit ''x-for="'', Group 3 (Plus (Cls notQuote)), Lit ''"'', Group 4 (Star (Cls notGt)),
     Lit ''>'', Group 5 (StarLazy (Cls anyChar)), Lit ''</'', Backref 1, Lit ''>'']\<close>

text \<open>\<^verbatim>\<open>/\bx-row=\"([^\"]+)\"/\<close>, \<^verbatim>\<open>/\bx-for=\"[^\"]+\"/g\<close>,
  \<^verbatim>\<open>/\bx-row=\"[^\"]+\"/g\<close>, \<^verbatim>\<open>/\bx-if=\"[^\"]+\"/g\<close> and \<^verbatim>\<open>/\s{2,}/g\<close>\<close>

definition rowAliasRegex :: rx where
  \<open>rowAliasRegex = seqs [WordB, Lit ''x-row="'', Group 1 (Plus (Cls notQuote)), Lit ''"'']\<close>

definition forAttrRegex :: rx where
  \<open>forAttrRegex = seqs [WordB, Lit ''x-for="'', Plus (Cls notQuote), Lit ''"'']\<close>

definition rowAttrRegex :: rx where
  \<open>rowAttrRegex = seqs [WordB, Lit ''x-row="'', Plus (Cls notQuote), Lit ''"'']\<close>

definition ifAttrRegex :: rx where
  \<open>ifAttrRegex = seqs [WordB, Lit ''x-if="'', Plus (Cls notQuote), Lit ''"'']\<close>

definition spacesRegex :: rx where
  "spacesRegex = seqs [Cls isSpace, Cls isSpace, Star (Cls isSpace)]"

text \<open>\<^verbatim>\<open>/\{\{\{\s*([^}]+?)\s*\}\}\}/g\<close> and \<^verbatim>\<open>/\{\{\s*([^}]+?)\s*\}\}/g\<close>\<close>

definition tripleRegex :: rx where
  "tripleRegex = seqs [Lit ''{{{'', Star (Cls isSpace), Group 1 (PlusLazy (Cls notBrace)),
     Star (Cls isSpace), Lit ''}}}'']"

definition mustacheRegex :: rx where
  "mustacheRegex = seqs [Lit ''{{'', Star (Cls isSpace), Group 1 (PlusLazy (Cls notBrace)),
     Star (Cls isSpace), Lit ''}}'']"

text \<open>\<^verbatim>\<open>/(\w[\w\-]*)\s*=\s*"([^"]*)"/g\<close> and \<^verbatim>\<open>/^\{\{\s*([\s\S]+?)\s*\}\}$/\<close>\<close>

definition attrRegex :: rx where
  \<open>attrRegex = seqs [Group 1 (Seq (Cls isWord) (Star (Cls isWordDash))), Star (Cls isSpace),
     Lit ''='', Star (Cls isSpace), Lit ''"'', Group 2 (Star (Cls notQuote)), Lit ''"'']\<close>

definition exprMatchRegex :: rx where
  "exprMatchRegex = seqs [Bol, Lit ''{{'', Star (Cls isSpace), Group 1 (PlusLazy (Cls anyChar)),
     Star (Cls isSpace), Lit ''}}'', Eol]"

subsection \<open>Scopes and expression evaluation\<close>

definition hasProperty :: "obj \<Rightarrow> string \<Rightarrow> bool" where
  "hasProperty t p = (map_of t p \<noteq> None)"

definition getProperty :: "obj \<Rightarrow> string \<Rightarrow> jsval" where
  "getProperty t p = (case map_of t p of None \<Rightarrow> JUndefined | Some v \<Rightarrow> v)"

text \<open>\<open>createRootDataProxy\<close>: an object without prototype, \<open>$root\<close> set first, then the
  properties of \<open>data\<close> assigned over it when \<open>data\<close> is truthy and an object.\<close>

definition createRootDataProxy :: "jsval \<Rightarrow> obj" where
  "createRootDataProxy data =
     (let context = [(''$root'', data)]
      in if Boolean_of data \<and> typeofObject data then assign context (ownProperties data)
         else context)"

text \<open>\<open>createEvalScope\<close>: the \<open>get\<close> trap of the proxy around the scope object (every
  scope the engine builds is an object, so \<open>data ?? {}\<close> is \<open>data\<close>). The \<open>has\<close> trap
  is constantly \<open>true\<close>.\<close>

definition createEvalScope :: "host \<Rightarrow> obj \<Rightarrow> property_key \<Rightarrow> jsval" where
  "createEvalScope h t p =
     (case p of
        PSymbolUnscopables \<Rightarrow> JUndefined
      | PName x \<Rightarrow>
          if hasProperty t x then getProperty t x
          else if hasProperty (globalThis h) x then getProperty (globalThis h) x
          else JUndefined)"

definition safeEval :: "host \<Rightarrow> string \<Rightarrow> obj \<Rightarrow> error + jsval" where
  "safeEval h expression data =
     (case newFunctionCall h expression (createEvalScope h data) of
        Inl err \<Rightarrow> Inl (ExpressionEvaluationFailed expression err)
      | Inr v \<Rightarrow> Inr v)"

definition safeEvalBoolean :: "host \<Rightarrow> string \<Rightarrow> obj \<Rightarrow> error + bool" where
  "safeEvalBoolean h expression data =
     (case safeEval h expression data of Inl e \<Rightarrow> Inl e | Inr v \<Rightarrow> Inr (Boolean_of v))"

subsection \<open>Interpolation\<close>

definition escapeHtml :: "string \<Rightarrow> string" where
  \<open>escapeHtml str =
     replaceStr (Lit ''>'') ''&gt;''
       (replaceStr (Lit ''<'') ''&lt;''
         (replaceStr (Lit [CHR 0x27]) ''&#39;''
           (replaceStr (Lit ''"'') ''&quot;''
             (replaceStr (Lit ''&'') ''&amp;'' str))))\<close>

definition rawCallback :: "host \<Rightarrow> obj \<Rightarrow> string \<Rightarrow> captures \<Rightarrow> unit \<Rightarrow> (string \<times> unit) result" where
  "rawCallback h data full c u =
     bindR (liftE (safeEval h (grp c 1) data)) (\<lambda>v.
       if v = JNull \<or> v = JUndefined then returnR ([], u) else returnR (String_of v, u))"

definition escapedCallback :: "host \<Rightarrow> obj \<Rightarrow> string \<Rightarrow> captures \<Rightarrow> unit \<Rightarrow> (string \<times> unit) result" where
  "escapedCallback h data full c u =
     bindR (liftE (safeEval h (grp c 1) data)) (\<lambda>v.
       if v = JNull \<or> v = JUndefined then returnR ([], u)
       else returnR (escapeHtml (String_of v), u))"

definition interpolate :: "host \<Rightarrow> string \<Rightarrow> obj \<Rightarrow> string result" where
  "interpolate h html data =
     bindR (replaceCb tripleRegex (rawCallback h data) [] html ()) (\<lambda>(html1, u).
     bindR (replaceCb mustacheRegex (escapedCallback h data) [] html1 ()) (\<lambda>(html2, u).
       returnR html2))"

subsection \<open>Include attributes\<close>

fun parseAttributesLoop :: "host \<Rightarrow> obj \<Rightarrow> captures list \<Rightarrow> obj \<Rightarrow> error + obj" where
  "parseAttributesLoop h data [] result = Inr result"
| "parseAttributesLoop h data (m # ms) result =
     (let key = grp m 1; rawValue = grp m 2
      in case search exprMatchRegex [] rawValue of
           Some exprMatch \<Rightarrow>
             (case safeEval h (grp exprMatch 1) data of
                Inl e \<Rightarrow> Inl e
              | Inr v \<Rightarrow> parseAttributesLoop h data ms (AList.update key v result))
         | None \<Rightarrow> parseAttributesLoop h data ms (AList.update key (JStr rawValue) result))"

definition parseAttributes :: "host \<Rightarrow> string \<Rightarrow> obj \<Rightarrow> error + obj" where
  "parseAttributes h attrs data = parseAttributesLoop h data (execAll attrRegex [] attrs) []"

subsection \<open>The directive passes\<close>

text \<open>The callbacks of the three structural passes take the recursive \<open>renderContent\<close>
  as their first argument \<open>rc\<close>; the state they thread is \<open>didReplace\<close>.\<close>

type_synonym renderer = "string \<Rightarrow> obj \<Rightarrow> string list \<Rightarrow> nat \<Rightarrow> string result"

definition openTagOf :: "string \<Rightarrow> string \<Rightarrow> string" where
  "openTagOf tagName cleanedAttrs =
     (if length cleanedAttrs > 0 then ''<'' @ tagName @ '' '' @ cleanedAttrs @ ''>''
      else ''<'' @ tagName @ ''>'')"

definition childData :: "obj \<Rightarrow> string \<Rightarrow> jsval \<Rightarrow> nat \<Rightarrow> obj" where
  "childData data alias row index =
     AList.update ''$index'' (JNum (int index)) (AList.update alias row data)"

text \<open>The \<open>for\<close> loop over the rows, collecting \<open>pieces\<close>.\<close>

fun loopPieces ::
  "renderer \<Rightarrow> string \<Rightarrow> string \<Rightarrow> string \<Rightarrow> obj \<Rightarrow> string \<Rightarrow> string list \<Rightarrow> nat \<Rightarrow> nat
     \<Rightarrow> jsval list \<Rightarrow> string list result" where
  "loopPieces rc openTag closingTag inner data alias renderStack depth index [] = returnR []"
| "loopPieces rc openTag closingTag inner data alias renderStack depth index (row # rows) =
     bindR (rc inner (childData data alias row index) renderStack (depth + 1)) (\<lambda>processedInner.
     bindR (loopPieces rc openTag closingTag inner data alias renderStack depth (index + 1) rows)
       (\<lambda>pieces. returnR ((openTag @ processedInner @ closingTag) # pieces)))"

fun elements :: "jsval \<Rightarrow> jsval list" where
  "elements (JArr xs) = xs"
| "elements v = []"

definition loopAlias :: "string \<Rightarrow> string" where
  "loopAlias attrsCombined =
     (case search rowAliasRegex [] attrsCombined of
        Some aliasMatch \<Rightarrow> trim (grp aliasMatch 1)
      | None \<Rightarrow> ''item'')"

definition loopCleanedAttrs :: "string \<Rightarrow> string" where
  "loopCleanedAttrs attrsCombined =
     trim (replaceStr spacesRegex '' ''
       (replaceStr rowAttrRegex [] (replaceStr forAttrRegex [] attrsCombined)))"

definition loopCallback ::
  "renderer \<Rightarrow> host \<Rightarrow> obj \<Rightarrow> string list \<Rightarrow> nat \<Rightarrow> string \<Rightarrow> captures \<Rightarrow> bool
     \<Rightarrow> (string \<times> bool) result" where
  "loopCallback rc h data renderStack depth full c didReplace =
     (let tagName = grp c 1; preAttrs = grp c 2; expr = grp c 3; postAttrs = grp c 4;
          inner = grp c 5;
          attrsCombined = trim (preAttrs @ '' '' @ postAttrs);
          alias = loopAlias attrsCombined
      in bindR (liftE (safeEval h expr data)) (\<lambda>iterable.
           if \<not> isArray iterable then returnR ([], True)
           else
             let cleanedAttrs = loopCleanedAttrs attrsCombined;
                 openTag = openTagOf tagName cleanedAttrs;
                 closingTag = ''</'' @ tagName @ ''>''
             in bindR (loopPieces rc openTag closingTag inner data alias renderStack depth 0
                         (elements iterable))
                  (\<lambda>pieces. returnR (concat pieces, True))))"

definition ifCleanedAttrs :: "string \<Rightarrow> string" where
  "ifCleanedAttrs attrsCombined =
     trim (replaceStr spacesRegex '' '' (replaceStr ifAttrRegex [] attrsCombined))"

definition ifCallback ::
  "renderer \<Rightarrow> host \<Rightarrow> obj \<Rightarrow> string list \<Rightarrow> nat \<Rightarrow> string \<Rightarrow> captures \<Rightarrow> bool
     \<Rightarrow> (string \<times> bool) result" where
  "ifCallback rc h data renderStack depth full c didReplace =
     (let tagName = grp c 1; preAttrs = grp c 2; expr = grp c 3; postAttrs = grp c 4;
          inner = grp c 5;
          attrsCombined = trim (preAttrs @ '' '' @ postAttrs)
      in bindR (liftE (safeEvalBoolean h expr data)) (\<lambda>condition.
           if \<not> condition then returnR ([], True)
           else
             let cleanedAttrs = ifCleanedAttrs attrsCombined;
                 openTag = openTagOf tagName cleanedAttrs
             in bindR (rc inner data renderStack (depth + 1)) (\<lambda>processedInner.
                  returnR (openTag @ processedInner @ ''</'' @ tagName @ ''>'', True))))"

definition includeCallback ::
  "renderer \<Rightarrow> engine \<Rightarrow> host \<Rightarrow> obj \<Rightarrow> string list \<Rightarrow> nat \<Rightarrow> string \<Rightarrow> captures \<Rightarrow> bool
     \<Rightarrow> (string \<times> bool) result" where
  "includeCallback rc eng h data renderStack depth full c didReplace =
     (let tagName = grp c 1; attrs = grp c 2;
          normalized = normalizeName eng tagName
      in case map_of (templateNameToRecord eng) normalized of
           None \<Rightarrow> returnR (full, didReplace)
         | Some record \<Rightarrow>
             bindR (liftE (parseAttributes h attrs data)) (\<lambda>attributes.
               if normalized \<in> set renderStack
               then Some (Inl (CyclicInclude (renderStack @ [normalized])))
               else
                 let mergedData = assign data attributes
                 in bindR (rc (content record) mergedData (renderStack @ [normalized]) (depth + 1))
                      (\<lambda>rendered. returnR (rendered, True))))"

text \<open>\<open>html.charCodeAt(0) === 0xfeff\<close>\<close>

definition stripBOM :: "string \<Rightarrow> string" where
  "stripBOM html =
     (case html of [] \<Rightarrow> html | c # cs \<Rightarrow> if (of_char c :: nat) = 0xfeff then cs else html)"

text \<open>
  \<open>renderContent\<close> and the three passes call each other. The first numeric argument is
  the recursion budget of the model: every call passes on one less, and a call without
  budget is \<open>None\<close>. The last argument is the \<open>depth\<close> of the source.
\<close>

function renderContent :: "engine \<Rightarrow> host \<Rightarrow> nat \<Rightarrow> string \<Rightarrow> obj \<Rightarrow> string list \<Rightarrow> nat \<Rightarrow> string result"
  and applyLoops :: "engine \<Rightarrow> host \<Rightarrow> nat \<Rightarrow> string \<Rightarrow> obj \<Rightarrow> string list \<Rightarrow> nat \<Rightarrow> string result"
  and applyConditionals :: "engine \<Rightarrow> host \<Rightarrow> nat \<Rightarrow> string \<Rightarrow> obj \<Rightarrow> string list \<Rightarrow> nat \<Rightarrow> string result"
  and applyIncludes :: "engine \<Rightarrow> host \<Rightarrow> nat \<Rightarrow> string \<Rightarrow> obj \<Rightarrow> string list \<Rightarrow> nat \<Rightarrow> string result"
where
  "renderContent eng h 0 source data renderStack depth =
     (if depth > 50 then Some (Inl RenderDepthExceeded) else None)"
| "renderContent eng h (Suc n) source data renderStack depth =
     (if depth > 50 then Some (Inl RenderDepthExceeded)
      else
        bindR (applyLoops eng h n (stripBOM source) data renderStack depth) (\<lambda>html1.
        bindR (applyConditionals eng h n html1 data renderStack depth) (\<lambda>html2.
        bindR (applyIncludes eng h n html2 data renderStack depth) (\<lambda>html3.
          interpolate h html3 data))))"
| "applyLoops eng h 0 html data renderStack depth = None"
| "applyLoops eng h (Suc n) html data renderStack depth =
     bindR (replaceCb forRegex
              (loopCallback (\<lambda>s d st k. renderContent eng h n s d st k) h data renderStack depth)
              [] html False)
       (\<lambda>(result, didReplace).
          if didReplace then applyLoops eng h n result data renderStack (depth + 1)
          else returnR result)"
| "applyConditionals eng h 0 html data renderStack depth = None"
| "applyConditionals eng h (Suc n) html data renderStack depth =
     bindR (replaceCb ifRegex
              (ifCallback (\<lambda>s d st k. renderContent eng h n s d st k) h data renderStack depth)
              [] html False)
       (\<lambda>(result, didReplace).
          if didReplace then applyConditionals eng h n result data renderStack (depth + 1)
          else returnR result)"
| "applyIncludes eng h 0 html data renderStack depth = None"
| "applyIncludes eng h (Suc n) html data renderStack depth =
     bindR (replaceCb includeTagRegex
              (includeCallback (\<lambda>s d st k. renderContent eng h n s d st k) eng h data renderStack depth)
              [] html False)
       (\<lambda>(result, didReplace).
          if didReplace then applyIncludes eng h n result data renderStack (depth + 1)
          else returnR result)"
  by pat_completeness auto
termination
  by (relation "measure (\<lambda>x. case x of
        Inl (Inl (eng, h, n, r)) \<Rightarrow> n
      | Inl (Inr (eng, h, n, r)) \<Rightarrow> n
      | Inr (Inl (eng, h, n, r)) \<Rightarrow> n
      | Inr (Inr (eng, h, n, r)) \<Rightarrow> n)") auto

subsection \<open>The public operations\<close>

definition render :: "engine \<Rightarrow> host \<Rightarrow> nat \<Rightarrow> string \<Rightarrow> jsval \<Rightarrow> string result" where
  "render eng h fuel templateName data =
     (let normalizedName = normalizeName eng templateName
      in case map_of (templateNameToRecord eng) normalizedName of
           None \<Rightarrow> Some (Inl (TemplateNotFound templateName))
         | Some record \<Rightarrow>
             renderContent eng h fuel (content record) (createRootDataProxy data) [] 0)"

definition renderWithLayout ::
  "engine \<Rightarrow> host \<Rightarrow> nat \<Rightarrow> string \<Rightarrow> string \<Rightarrow> jsval \<Rightarrow> string \<Rightarrow> string result" where
  "renderWithLayout eng h fuel layoutTemplateName innerTemplateName data contentVarName =
     bindR (render eng h fuel innerTemplateName data) (\<lambda>innerHtml.
       let layoutData = JObj (AList.update contentVarName (JStr innerHtml) (ownProperties data))
       in render eng h fuel layoutTemplateName layoutData)"


subsection \<open>Reloading\<close>

text \<open>
  \<open>reload\<close> reads the file system through \<open>fs.existsSync\<close>, \<open>fs.readdirSync\<close> and
  \<open>fs.readFileSync\<close>. What is found at a path is a file, with its content or with
  \<open>None\<close> when reading it fails, or a directory with its entries in the order in which
  \<open>readdirSync\<close> lists them; the file system is a function from the configured
  (resolved) directory paths to what is there, \<open>None\<close> where nothing exists.
\<close>

datatype fsnode = FsFile "string option" | FsDir "(string \<times> fsnode) list"

datatype fs_error = ReadError string | NotADirectory string

type_synonym registry = "(string \<times> template_record) list"

text \<open>A literal under the flag \<open>i\<close>.\<close>

definition litCI :: "string \<Rightarrow> rx" where
  "litCI s = seqs (map (\<lambda>c. Cls (\<lambda>x. lowerChar x = lowerChar c)) s)"

text \<open>\<^verbatim>\<open>/<!--\s*@template(?:\s+name\s*=\s*"([^"]+)"|[:\s]+([^\-\->]+))\s*-->/i\<close>\<close>

definition DEFAULT_NAME_DIRECTIVE :: rx where
  \<open>DEFAULT_NAME_DIRECTIVE = seqs [Lit ''<!--'', Star (Cls isSpace), litCI ''@template'',
     Alt (seqs [Plus (Cls isSpace), litCI ''name'', Star (Cls isSpace), Lit ''='',
                Star (Cls isSpace), Lit ''"'', Group 1 (Plus (Cls notQuote)), Lit ''"''])
         (seqs [Plus (Cls (\<lambda>c. c = CHR '':'' \<or> isSpace c)),
                Group 2 (Plus (Cls (\<lambda>c. c \<noteq> CHR ''-'' \<and> c \<noteq> CHR ''>'')))]),
     Star (Cls isSpace), Lit ''-->'']\<close>

definition extractTemplateName :: "engine \<Rightarrow> string \<Rightarrow> string option" where
  "extractTemplateName eng content' =
     (case search (nameDirective eng) [] content' of
        None \<Rightarrow> None
      | Some m \<Rightarrow>
          (let nm = trim (case map_of m 1 of
                            Some s \<Rightarrow> s
                          | None \<Rightarrow> (case map_of m 2 of Some s \<Rightarrow> s | None \<Rightarrow> []))
           in if length nm > 0 then Some nm else None))"

text \<open>\<open>String.prototype.endsWith\<close>, and \<open>path.extname\<close> and \<open>path.basename\<close> on the
  name of a directory entry.\<close>

definition endsWith :: "string \<Rightarrow> string \<Rightarrow> bool" where
  "endsWith s suffix = (length suffix \<le> length s \<and> drop (length s - length suffix) s = suffix)"

definition extname :: "string \<Rightarrow> string" where
  "extname p =
     (let r = takeWhile (\<lambda>c. c \<noteq> CHR ''.'') (rev p)
      in if length r = length p \<or> length r + 1 = length p then []
         else CHR ''.'' # rev r)"

definition basename :: "string \<Rightarrow> string \<Rightarrow> string" where
  "basename p ext =
     (if ext \<noteq> [] \<and> endsWith p ext \<and> p \<noteq> ext then take (length p - length ext) p else p)"

text \<open>
  \<open>scanDirectory\<close> writes into the \<open>Map\<close> of the engine while it walks: the functions
  below take the registry and return it as it is when the walk ends or throws (the second
  component is the exception of the file system, if any).
\<close>

fun scanEntries :: "engine \<Rightarrow> string \<Rightarrow> (string \<times> fsnode) list \<Rightarrow> registry
    \<Rightarrow> registry \<times> fs_error option" where
  "scanEntries eng directory [] reg = (reg, None)"
| "scanEntries eng directory ((entryName, FsDir entries) # rest) reg =
     (case scanEntries eng (directory @ ''/'' @ entryName) entries reg of
        (reg', Some e) \<Rightarrow> (reg', Some e)
      | (reg', None) \<Rightarrow> scanEntries eng directory rest reg')"
| "scanEntries eng directory ((entryName, FsFile c) # rest) reg =
     (let fullPath = directory @ ''/'' @ entryName
      in if \<not> list_ex (\<lambda>ext. endsWith (toLowerCase entryName) ext) (extensions eng)
         then scanEntries eng directory rest reg
         else (case c of
                 None \<Rightarrow> (reg, Some (ReadError fullPath))
               | Some raw \<Rightarrow>
                   (let nm = (case extractTemplateName eng raw of
                                Some n \<Rightarrow> n
                              | None \<Rightarrow> basename entryName (extname entryName));
                        normalizedName = normalizeName eng nm;
                        record = \<lparr>name = normalizedName, filePath = fullPath, content = raw\<rparr>
                    in scanEntries eng directory rest (AList.update normalizedName record reg))))"

definition scanDirectory :: "engine \<Rightarrow> (string \<Rightarrow> fsnode option) \<Rightarrow> string \<Rightarrow> registry
    \<Rightarrow> registry \<times> fs_error option" where
  "scanDirectory eng fs directory reg =
     (case fs directory of
        None \<Rightarrow> (reg, None)
      | Some (FsFile c) \<Rightarrow> (reg, Some (NotADirectory directory))
      | Some (FsDir entries) \<Rightarrow> scanEntries eng directory entries reg)"

fun scanDirectories :: "engine \<Rightarrow> (string \<Rightarrow> fsnode option) \<Rightarrow> string list \<Rightarrow> registry
    \<Rightarrow> registry \<times> fs_error option" where
  "scanDirectories eng fs [] reg = (reg, None)"
| "scanDirectories eng fs (directory # rest) reg =
     (case scanDirectory eng fs directory reg of
        (reg', Some e) \<Rightarrow> (reg', Some e)
      | (reg', None) \<Rightarrow> scanDirectories eng fs rest reg')"

text \<open>\<open>reload\<close>: \<open>this.templateNameToRecord.clear()\<close>, then the scan of every directory.\<close>

definition reload :: "engine \<Rightarrow> (string \<Rightarrow> fsnode option) \<Rightarrow> engine \<times> fs_error option" where
  "reload eng fs =
     (case scanDirectories eng fs (directories eng) [] of
        (reg, outcome) \<Rightarrow> (eng\<lparr>templateNameToRecord := reg\<rparr>, outcome))"

section \<open>Fixtures and specification-side definitions\<close>

text \<open>A host whose global object has the given properties and whose engine rejects every
  expression text that the model does not evaluate itself.\<close>

definition hostWith :: "obj \<Rightarrow> host" where
  "hostWith g = \<lparr>globalThis = g, jsEngine = (\<lambda>e scope. Inl (HostError ''unsupported''))\<rparr>"

text \<open>An engine after \<open>reload()\<close> has found the given templates (name and content).\<close>

definition engineOf :: "(string \<times> string) list \<Rightarrow> engine" where
  "engineOf ts = \<lparr>directories = [''views''],
     extensions = [''.html'', ''.htm'', ''.tpl'', ''.tpl.html''],
     nameDirective = DEFAULT_NAME_DIRECTIVE,
     caseInsensitiveNames = True,
     templateNameToRecord =
       map (\<lambda>(n, c). (n, \<lparr>name = n, filePath = ''views/'' @ n @ ''.html'', content = c\<rparr>)) ts\<rparr>"

text \<open>An engine that holds one record from an earlier scan, and two states of its
  directory \<open>views\<close>: one in which every file can be read, one in which \<open>c.html\<close>
  cannot.\<close>

definition staleEngine :: engine where
  "staleEngine = engineOf [(''old'', ''<p>old</p>'')]"

definition goodViews :: "string \<Rightarrow> fsnode option" where
  \<open>goodViews path =
     (if path = ''views''
      then Some (FsDir [(''UserCard.html'', FsFile (Some ''<b>{{ name }}</b>'')),
                        (''notes.txt'', FsFile (Some ''not a template'')),
                        (''layout'', FsDir [(''main.tpl'',
                           FsFile (Some ''<!-- @template name="Main_View" -->{{{ content }}}''))])])
      else None)\<close>

definition brokenViews :: "string \<Rightarrow> fsnode option" where
  "brokenViews path =
     (if path = ''views''
      then Some (FsDir [(''b.html'', FsFile (Some ''<p>b</p>'')), (''c.html'', FsFile None)])
      else None)"

text \<open>The specification's description of escaping: each of the five characters becomes its
  entity, every other character stays.\<close>

definition escapeChar :: "char \<Rightarrow> string" where
  \<open>escapeChar c =
     (if c = CHR ''&'' then ''&amp;''
      else if c = CHR ''"'' then ''&quot;''
      else if c = CHR 0x27 then ''&#39;''
      else if c = CHR ''<'' then ''&lt;''
      else if c = CHR ''>'' then ''&gt;''
      else [c])\<close>

text \<open>The identifier at which a dotted path starts.\<close>

fun headOf :: "expr \<Rightarrow> string" where
  "headOf (Ident x) = x"
| "headOf (Member e p) = headOf e"

text \<open>The values that are not objects: \<open>null\<close>, \<open>undefined\<close>, a number, a string, a
  boolean.\<close>

fun isPrimitive :: "jsval \<Rightarrow> bool" where
  "isPrimitive (JArr xs) = False"
| "isPrimitive (JObj kv) = False"
| "isPrimitive v = True"

text \<open>A chain of includes: every template of the list but the last consists of the
  include element of the next one, and the last has the content \<open>body\<close>.\<close>

definition isTagName :: "string \<Rightarrow> bool" where
  "isTagName s = (case s of [] \<Rightarrow> False | c # cs \<Rightarrow> isAlpha c \<and> list_all isWordDash cs)"

fun chainContent :: "string list \<Rightarrow> string \<Rightarrow> string" where
  "chainContent (x # y # ys) body = ''<'' @ y @ ''/>''"
| "chainContent xs body = body"

fun chainIn :: "engine \<Rightarrow> string list \<Rightarrow> string \<Rightarrow> bool" where
  "chainIn eng [] body = True"
| "chainIn eng (x # xs) body =
     ((case map_of (templateNameToRecord eng) x of
         None \<Rightarrow> False
       | Some r \<Rightarrow> content r = chainContent (x # xs) body)
      \<and> chainIn eng xs body)"

fun chainTemplates :: "string list \<Rightarrow> string \<Rightarrow> (string \<times> string) list" where
  "chainTemplates [] body = []"
| "chainTemplates (x # xs) body = (x, chainContent (x # xs) body) # chainTemplates xs body"

text \<open>Fifty-two template names, \<open>aa\<close> to \<open>az\<close> and \<open>ba\<close> to \<open>bz\<close>.\<close>

definition deepChain :: "string list" where
  "deepChain = map (\<lambda>c. [CHR ''a'', c]) ''abcdefghijklmnopqrstuvwxyz''
     @ map (\<lambda>c. [CHR ''b'', c]) ''abcdefghijklmnopqrstuvwxyz''"

text \<open>A pattern whose every match contains the character \<open>q\<close> (a sufficient syntactic
  test), and the text \<open>w\<close> that lies between two states of the matcher.\<close>

fun mustContain :: "char \<Rightarrow> rx \<Rightarrow> bool" where
  "mustContain q (Lit s) = (q \<in> set s)"
| "mustContain q (Seq r1 r2) = (mustContain q r1 \<or> mustContain q r2)"
| "mustContain q (Group n r) = mustContain q r"
| "mustContain q r = False"

definition consumed :: "mstate \<Rightarrow> mstate \<Rightarrow> string \<Rightarrow> bool" where
  "consumed st st' w = (fst (snd st) = w @ fst (snd st') \<and> fst st' = rev w @ fst st)"

text \<open>A renderer that is only defined at one depth.\<close>

definition atDepth :: "nat \<Rightarrow> renderer \<Rightarrow> renderer" where
  "atDepth d rc = (\<lambda>s dt stk k. if k = d then rc s dt stk k else None)"

section \<open>Basic facts\<close>

lemma bindR_simps [simp]:
  "bindR None k = None"
  "bindR (Some (Inl e)) k = Some (Inl e)"
  "bindR (Some (Inr x)) k = k x"
  by (simp_all add: bindR_def)

declare renderContent.simps [simp del] applyLoops.simps [simp del]
  applyConditionals.simps [simp del] applyIncludes.simps [simp del]

declare rxm.simps [simp del]

lemmas class_defs = isAlpha_def isDigit_def isWord_def isWordDash_def isSpace_def anyChar_def
  notGt_def notQuote_def notBrace_def wordBoundary_def progress_def

lemmas regex_defs = includeTagRegex_def ifRegex_def forRegex_def rowAliasRegex_def
  forAttrRegex_def rowAttrRegex_def ifAttrRegex_def spacesRegex_def tripleRegex_def
  mustacheRegex_def attrRegex_def exprMatchRegex_def tagNameRx_def Plus_def PlusLazy_def

lemmas scan_defs = replaceCb.simps rxm.simps matchAt_def matchLit_def returnR_def liftE_def
  class_defs regex_defs

lemmas pass_defs = applyLoops.simps applyConditionals.simps applyIncludes.simps interpolate_def
  rawCallback_def escapedCallback_def grp_def

lemmas ident_defs = isPlainIdentifier_def isIdentStart_def isIdentPart_def reservedWords_def
  objectPrototypeNames_def isAlpha_def isDigit_def isSpace_def

lemmas eval_defs = safeEval_def newFunctionCall_def parseExpression_def ident_defs
  createEvalScope_def hasProperty_def getProperty_def

lemmas name_defs = normalizeName_def trim_def toLowerCase_def lowerChar_def isSpace_def

lemmas attr_defs = loopAlias_def loopCleanedAttrs_def ifCleanedAttrs_def openTagOf_def
  replaceStr_def search.simps trim_def

lemmas show_defs = showInt_def showNat.simps digitChar_def

lemma engineOf_sel [simp]:
  "caseInsensitiveNames (engineOf ts) = True"
  "templateNameToRecord (engineOf ts) =
     map (\<lambda>(n, c). (n, \<lparr>name = n, filePath = ''views/'' @ n @ ''.html'', content = c\<rparr>)) ts"
  by (simp_all add: engineOf_def)

lemma hostWith_sel [simp]: "globalThis (hostWith g) = g"
  by (simp add: hostWith_def)

text \<open>No code unit is the byte-order mark, so on the strings of the model the test of
  \<open>renderContent\<close> for it never succeeds.\<close>

lemma stripBOM_id [simp]: "stripBOM s = s"
proof (cases s)
  case Nil
  then show ?thesis by (simp add: stripBOM_def)
next
  case (Cons c cs)
  have "(of_char c :: nat) mod 256 = of_char c" by simp
  then have "(of_char c :: nat) < 256" by (metis mod_less_divisor zero_less_numeral)
  then have "(of_char c :: nat) \<noteq> 0xfeff" by arith
  then show ?thesis using Cons by (simp add: stripBOM_def)
qed

section \<open>Escaping\<close>

lemma replaceCb_char:
  "replaceCb (Lit [q]) (\<lambda>full c u. Some (Inr (rep, ()))) b s () =
     Some (Inr (concat (map (\<lambda>x. if x = q then rep else [x]) s), ()))"
proof (induction s arbitrary: b)
  case Nil
  show ?case by (simp add: replaceCb.simps rxm.simps matchAt_def matchLit_def returnR_def)
next
  case (Cons x s)
  show ?case
    by (subst replaceCb.simps)
      (simp add: rxm.simps matchAt_def matchLit_def returnR_def Cons.IH)
qed

lemma replaceStr_char:
  "replaceStr (Lit [q]) rep s = concat (map (\<lambda>x. if x = q then rep else [x]) s)"
  by (simp add: replaceStr_def replaceCb_char returnR_def)

lemma concat_map_concat_map:
  "concat (map g (concat (map f s))) = concat (map (\<lambda>x. concat (map g (f x))) s)"
  by (induction s) simp_all

lemma escapeHtml_char: "escapeHtml s = concat (map escapeChar s)"
proof -
  have "escapeHtml s = concat (map (\<lambda>x. escapeHtml [x]) s)"
    unfolding escapeHtml_def
    by (simp only: replaceStr_char concat_map_concat_map list.map concat.simps append_Nil2)
  moreover have "escapeHtml [x] = escapeChar x" for x
    unfolding escapeHtml_def
    by (simp add: replaceStr_char escapeChar_def)
  ultimately show ?thesis by simp
qed


section \<open>Raw interpolation\<close>

text \<open>
  C7. The interpolation pass makes two substitutions, raw first, escaped second. The second
  runs over the text that the first has produced: a raw value that contains \<open>{{ x }}\<close> is
  evaluated by it and does not reach the output as it is.
\<close>

theorem raw_value_is_interpolated_again:
  "interpolate h ''{{{ v }}}'' [(''v'', JStr ''{{ x }}''), (''x'', JStr ''BOOM'')]
     = Some (Inr ''BOOM'')
   \<and> render (engineOf [(''t'', ''{{{ v }}}'')]) h (Suc (Suc n)) ''t''
        (JObj [(''v'', JStr ''{{ x }}''), (''x'', JStr ''BOOM'')])
     = Some (Inr ''BOOM'')"
proof
  show "interpolate h ''{{{ v }}}'' [(''v'', JStr ''{{ x }}''), (''x'', JStr ''BOOM'')]
     = Some (Inr ''BOOM'')"
    by (simp add: pass_defs scan_defs eval_defs escapeHtml_char escapeChar_def
        split del: if_split)
  show "render (engineOf [(''t'', ''{{{ v }}}'')]) h (Suc (Suc n)) ''t''
        (JObj [(''v'', JStr ''{{ x }}''), (''x'', JStr ''BOOM'')])
     = Some (Inr ''BOOM'')"
    apply (simp add: render_def name_defs createRootDataProxy_def assign_def)
    apply (subst renderContent.simps)
    apply (simp add: pass_defs scan_defs eval_defs escapeHtml_char escapeChar_def
        split del: if_split)
    done
qed

section \<open>Layouts\<close>

lemma plain_page:
  "renderContent eng h (Suc (Suc n)) ''<p>Hi</p>'' data st 0 = Some (Inr ''<p>Hi</p>'')"
  apply (subst renderContent.simps)
  apply (simp add: pass_defs scan_defs split del: if_split)
  done

lemma layout_body:
  "renderContent eng h (Suc (Suc n)) ''<h1>{{ title }}</h1>{{{ content }}}''
     [(''$root'', r), (''title'', JStr ''T''), (''content'', JStr ''<p>Hi</p>'')] st 0
   = Some (Inr ''<h1>T</h1><p>Hi</p>'')"
  apply (subst renderContent.simps)
  apply (simp add: pass_defs scan_defs eval_defs escapeHtml_char escapeChar_def
      split del: if_split)
  done

lemma layout_example:
  "renderWithLayout
     (engineOf [(''layout'', ''<h1>{{ title }}</h1>{{{ content }}}''), (''page'', ''<p>Hi</p>'')])
     h (Suc (Suc n)) ''layout'' ''page'' (JObj [(''title'', JStr ''T'')]) ''content''
   = Some (Inr ''<h1>T</h1><p>Hi</p>'')"
  by (simp add: renderWithLayout_def render_def name_defs createRootDataProxy_def assign_def
      plain_page layout_body)

text \<open>
  C8. \<open>renderWithLayout\<close> renders the inner template with \<open>data\<close> and then the layout
  with an object that has the properties of \<open>data\<close> and, under \<open>contentVarName\<close>, the
  inner HTML. The layout \<open><h1>{{ title }}</h1>{{{ content }}}\<close> around the page
  \<open><p>Hi</p>\<close> with \<open>{title: 'T'}\<close> gives \<open><h1>T</h1><p>Hi</p>\<close>.
\<close>

theorem renderWithLayout_is_render_of_extended_data:
  "(render eng h fuel innerName data = Some (Inr innerHtml) \<longrightarrow>
      (\<exists>layoutData.
         map_of layoutData = (map_of (ownProperties data))(contentVarName \<mapsto> JStr innerHtml)
         \<and> renderWithLayout eng h fuel layoutName innerName data contentVarName
             = render eng h fuel layoutName (JObj layoutData)))
   \<and> renderWithLayout
       (engineOf [(''layout'', ''<h1>{{ title }}</h1>{{{ content }}}''), (''page'', ''<p>Hi</p>'')])
       h (Suc (Suc n)) ''layout'' ''page'' (JObj [(''title'', JStr ''T'')]) ''content''
     = Some (Inr ''<h1>T</h1><p>Hi</p>'')"
proof (intro conjI impI)
  assume inner: "render eng h fuel innerName data = Some (Inr innerHtml)"
  let ?ld = "AList.update contentVarName (JStr innerHtml) (ownProperties data)"
  have "map_of ?ld = (map_of (ownProperties data))(contentVarName \<mapsto> JStr innerHtml)"
    by (rule update_conv')
  moreover have "renderWithLayout eng h fuel layoutName innerName data contentVarName
      = render eng h fuel layoutName (JObj ?ld)"
    by (simp add: renderWithLayout_def inner)
  ultimately show "\<exists>layoutData.
         map_of layoutData = (map_of (ownProperties data))(contentVarName \<mapsto> JStr innerHtml)
         \<and> renderWithLayout eng h fuel layoutName innerName data contentVarName
             = render eng h fuel layoutName (JObj layoutData)"
    by blast
next
  show "renderWithLayout
       (engineOf [(''layout'', ''<h1>{{ title }}</h1>{{{ content }}}''), (''page'', ''<p>Hi</p>'')])
       h (Suc (Suc n)) ''layout'' ''page'' (JObj [(''title'', JStr ''T'')]) ''content''
     = Some (Inr ''<h1>T</h1><p>Hi</p>'')"
    by (rule layout_example)
qed

theorem renderWithLayout_is_render_of_extended_data_witness:
  "render (engineOf [(''layout'', ''<h1>{{ title }}</h1>{{{ content }}}''), (''page'', ''<p>Hi</p>'')])
     (hostWith []) 2 ''page'' (JObj [(''title'', JStr ''T'')]) = Some (Inr ''<p>Hi</p>'')
   \<and> (\<exists>layoutData.
         map_of layoutData = [''title'' \<mapsto> JStr ''T'', ''content'' \<mapsto> JStr ''<p>Hi</p>'']
         \<and> renderWithLayout
             (engineOf [(''layout'', ''<h1>{{ title }}</h1>{{{ content }}}''), (''page'', ''<p>Hi</p>'')])
             (hostWith []) 2 ''layout'' ''page'' (JObj [(''title'', JStr ''T'')]) ''content''
           = render
               (engineOf [(''layout'', ''<h1>{{ title }}</h1>{{{ content }}}''), (''page'', ''<p>Hi</p>'')])
               (hostWith []) 2 ''layout'' (JObj layoutData))"
proof -
  have two: "(2::nat) = Suc (Suc 0)" by simp
  have inner: "render (engineOf [(''layout'', ''<h1>{{ title }}</h1>{{{ content }}}''), (''page'', ''<p>Hi</p>'')])
     (hostWith []) 2 ''page'' (JObj [(''title'', JStr ''T'')]) = Some (Inr ''<p>Hi</p>'')"
    unfolding two
    by (simp add: render_def name_defs createRootDataProxy_def assign_def plain_page)
  show ?thesis
    using inner
      renderWithLayout_is_render_of_extended_data
        [where contentVarName = "''content''" and layoutName = "''layout''",
         THEN conjunct1, rule_format, OF inner]
    by simp
qed


section \<open>Expression evaluation\<close>

lemma splitDots_nodot: "CHR ''.'' \<notin> set x \<Longrightarrow> splitDots x = [x]"
  by (induction x) auto

lemma identPart_not_dot: "isIdentPart c \<Longrightarrow> c \<noteq> CHR ''.''"
  by (auto simp: isIdentPart_def isIdentStart_def isAlpha_def isDigit_def)

lemma identStart_not_paren:
  "isIdentStart c \<Longrightarrow> \<not> (c = CHR ''('' \<or> c = CHR '')'' \<or> isSpace c)"
  by (auto simp: isIdentStart_def isAlpha_def isSpace_def)

lemma identifierName_nodot: "isIdentifierName x \<Longrightarrow> CHR ''.'' \<notin> set x"
proof (cases x)
  case Nil
  then show ?thesis by simp
next
  case (Cons c cs)
  assume "isIdentifierName x"
  with Cons have "isIdentStart c" and "list_all isIdentPart cs" by simp_all
  then have "\<forall>d \<in> set (c # cs). isIdentPart d"
    by (auto simp: isIdentPart_def list_all_iff)
  then show ?thesis using Cons identPart_not_dot by blast
qed

lemma parse_plain_identifier:
  assumes "isPlainIdentifier x"
  shows "parseExpression x = Parsed (Ident x)"
proof -
  from assms have nm: "isIdentifierName x" by (simp add: isPlainIdentifier_def)
  then obtain c cs where x: "x = c # cs" and c: "isIdentStart c" by (cases x) auto
  have "\<not> list_all (\<lambda>c. c = CHR ''('' \<or> c = CHR '')'' \<or> isSpace c) x"
    using x c identStart_not_paren by auto
  moreover have "splitDots x = [x]"
    using nm by (intro splitDots_nodot identifierName_nodot)
  ultimately show ?thesis using assms by (simp add: parseExpression_def)
qed

lemma safeEval_identifier:
  "isPlainIdentifier x \<Longrightarrow> safeEval h x data = Inr (createEvalScope h data (PName x))"
  by (simp add: safeEval_def newFunctionCall_def parse_plain_identifier createEvalScope_def)

lemma evalExpr_head:
  "s1 (PName (headOf p)) = s2 (PName (headOf p)) \<Longrightarrow> s1 PSymbolUnscopables = s2 PSymbolUnscopables
     \<Longrightarrow> evalExpr s1 p = evalExpr s2 p"
  by (induction p) (auto split: jsval.splits)

lemma safeEval_path:
  assumes "parseExpression e = Parsed p"
    and "createEvalScope h' data (PName (headOf p)) = createEvalScope h data (PName (headOf p))"
    and "evalExpr (createEvalScope h data) p \<noteq> None"
  shows "safeEval h' e data = safeEval h e data"
proof -
  have "evalExpr (createEvalScope h' data) p = evalExpr (createEvalScope h data) p"
    using assms(2) by (intro evalExpr_head) (simp_all add: createEvalScope_def)
  with assms(1,3) show ?thesis
    by (auto simp: safeEval_def newFunctionCall_def)
qed

lemma safeEval_malformed:
  "list_all (\<lambda>c. c = CHR ''('' \<or> c = CHR '')'' \<or> isSpace c) e
     \<Longrightarrow> safeEval h e data = Inl (ExpressionEvaluationFailed e SyntaxError)"
  by (simp add: safeEval_def newFunctionCall_def parseExpression_def)




section \<open>Interpolation and evaluation errors\<close>

lemma interp_nope:
  "\<not> hasProperty data ''nope'' \<Longrightarrow> \<not> hasProperty (globalThis h) ''nope''
     \<Longrightarrow> interpolate h ''{{ nope }}'' data = Some (Inr [])"
  by (simp add: pass_defs scan_defs safeEval_identifier ident_defs createEvalScope_def
       split del: if_split)

lemma interp_malformed:
  "interpolate h ''{{ )( }}'' data = Some (Inl (ExpressionEvaluationFailed '')('' SyntaxError))"
  by (simp add: pass_defs scan_defs safeEval_malformed split del: if_split)

lemma interp_type_error:
  "\<not> hasProperty data ''a'' \<Longrightarrow> \<not> hasProperty (globalThis h) ''a''
     \<Longrightarrow> interpolate h ''{{ a.b }}'' data = Some (Inl (ExpressionEvaluationFailed ''a.b'' TypeError))"
  by (simp add: pass_defs scan_defs safeEval_def newFunctionCall_def parseExpression_def
       ident_defs createEvalScope_def split del: if_split)

lemma renderContent_passes:
  "d \<le> 50 \<Longrightarrow> applyLoops eng h n src data st d = Some (Inr h1)
    \<Longrightarrow> applyConditionals eng h n h1 data st d = Some (Inr h2)
    \<Longrightarrow> applyIncludes eng h n h2 data st d = Some (Inr h3)
    \<Longrightarrow> renderContent eng h (Suc n) src data st d = interpolate h h3 data"
  by (simp add: renderContent.simps)

lemma no_directives_malformed:
  "applyLoops eng h (Suc n) ''{{ )( }}'' data st d = Some (Inr ''{{ )( }}'')"
  "applyConditionals eng h (Suc n) ''{{ )( }}'' data st d = Some (Inr ''{{ )( }}'')"
  "applyIncludes eng h (Suc n) ''{{ )( }}'' data st d = Some (Inr ''{{ )( }}'')"
  by (simp_all add: pass_defs scan_defs split del: if_split)




section \<open>The root scope\<close>

lemma root_proxy_primitive: "isPrimitive d \<Longrightarrow> createRootDataProxy d = [(''$root'', d)]"
  by (cases d) (simp_all add: createRootDataProxy_def)

lemma interp_root:
  "interpolate h ''{{ $root }}'' [(''$root'', d)]
     = Some (Inr (if d = JNull \<or> d = JUndefined then [] else escapeHtml (String_of d)))"
  apply (simp add: pass_defs scan_defs eval_defs split del: if_split)
  apply (simp add: returnR_def)
  done

text \<open>
  C10 (as the code has it). For data that is not an object, building the root scope does
  not fail: the scope is the single binding of \<open>$root\<close> to the data, \<open>render\<close> runs the
  template against it, \<open>{{ $root }}\<close> interpolates the value, and any other identifier
  that the host's global object does not bind is \<open>undefined\<close>.
\<close>

theorem primitive_root_scope:
  "(isPrimitive d \<longrightarrow> createRootDataProxy d = [(''$root'', d)])
   \<and> (isPrimitive d \<and> map_of (templateNameToRecord eng) (normalizeName eng templateName) = Some r
      \<longrightarrow> render eng h fuel templateName d
          = renderContent eng h fuel (content r) [(''$root'', d)] [] 0)
   \<and> interpolate h ''{{ $root }}'' [(''$root'', d)]
       = Some (Inr (if d = JNull \<or> d = JUndefined then []
                    else concat (map escapeChar (String_of d))))
   \<and> (isPlainIdentifier x \<and> x \<noteq> ''$root'' \<and> \<not> hasProperty (globalThis h) x
      \<longrightarrow> safeEval h x [(''$root'', d)] = Inr JUndefined)"
  by (auto simp: root_proxy_primitive render_def interp_root escapeHtml_char
      safeEval_identifier createEvalScope_def hasProperty_def)

theorem primitive_root_scope_witness:
  "isPrimitive (JNum 5)
   \<and> createRootDataProxy (JNum 5) = [(''$root'', JNum 5)]
   \<and> map_of (templateNameToRecord (engineOf [(''t'', ''{{ $root }}'')]))
        (normalizeName (engineOf [(''t'', ''{{ $root }}'')]) ''t'')
       = Some \<lparr>name = ''t'', filePath = ''views/t.html'', content = ''{{ $root }}''\<rparr>
   \<and> render (engineOf [(''t'', ''{{ $root }}'')]) (hostWith []) 2 ''t'' (JNum 5)
       = renderContent (engineOf [(''t'', ''{{ $root }}'')]) (hostWith []) 2 ''{{ $root }}''
           [(''$root'', JNum 5)] [] 0
   \<and> isPlainIdentifier ''other'' \<and> ''other'' \<noteq> ''$root''
   \<and> \<not> hasProperty (globalThis (hostWith [])) ''other''
   \<and> safeEval (hostWith []) ''other'' [(''$root'', JNum 5)] = Inr JUndefined"
proof -
  have a: "isPrimitive (JNum 5)" by simp
  have b: "map_of (templateNameToRecord (engineOf [(''t'', ''{{ $root }}'')]))
        (normalizeName (engineOf [(''t'', ''{{ $root }}'')]) ''t'')
       = Some \<lparr>name = ''t'', filePath = ''views/t.html'', content = ''{{ $root }}''\<rparr>"
    by (simp add: name_defs)
  have c: "isPlainIdentifier ''other''" by (simp add: ident_defs)
  have d: "''other'' \<noteq> ''$root''" by simp
  have e: "\<not> hasProperty (globalThis (hostWith [])) ''other''" by (simp add: hasProperty_def)
  note t = primitive_root_scope
    [where d = "JNum 5" and eng = "engineOf [(''t'', ''{{ $root }}'')]" and templateName = "''t''"
       and r = "\<lparr>name = ''t'', filePath = ''views/t.html'', content = ''{{ $root }}''\<rparr>"
       and h = "hostWith []" and fuel = 2 and x = "''other''"]
  from t a b c d e show ?thesis
    by (intro conjI) simp_all
qed

text \<open>C10 as stated fails in its last part: with \<open>null\<close> as data, an identifier other
  than \<open>$root\<close> that the global object binds is not absent.\<close>

theorem primitive_root_scope_reads_global:
  "render (engineOf [(''t'', ''{{ x }}'')]) (hostWith [(''x'', JStr ''g'')]) 2 ''t'' JNull
     = Some (Inr ''g'')"
proof -
  have two: "(2::nat) = Suc (Suc 0)" by simp
  show ?thesis
    unfolding two
    apply (simp add: render_def name_defs createRootDataProxy_def)
    apply (subst renderContent.simps)
    apply (simp add: pass_defs scan_defs eval_defs escapeHtml_char escapeChar_def
        split del: if_split)
    done
qed


section \<open>The loop pass\<close>

lemma loopPieces_ok:
  "length bodies = length rows \<Longrightarrow>
   (\<forall>i < length rows. rc inner (childData data alias (rows ! i) (k + i)) st (depth + 1)
        = Some (Inr (bodies ! i))) \<Longrightarrow>
   loopPieces rc ot ct inner data alias st depth k rows
     = Some (Inr (map (\<lambda>b. ot @ b @ ct) bodies))"
proof (induction rows arbitrary: bodies k)
  case Nil
  then show ?case by (simp add: returnR_def)
next
  case (Cons row rows)
  then obtain b bs where bodies: "bodies = b # bs" by (cases bodies) auto
  from Cons.prems(2) have first: "rc inner (childData data alias row k) st (depth + 1) = Some (Inr b)"
    using bodies by (metis add.right_neutral length_greater_0_conv list.distinct(1) nth_Cons_0)
  have rest: "\<forall>i < length rows.
      rc inner (childData data alias (rows ! i) (Suc k + i)) st (depth + 1) = Some (Inr (bs ! i))"
  proof (intro allI impI)
    fix i assume "i < length rows"
    then have "Suc i < length (row # rows)" by simp
    with Cons.prems(2)
    have "rc inner (childData data alias ((row # rows) ! Suc i) (k + Suc i)) st (depth + 1)
        = Some (Inr (bodies ! Suc i))" by blast
    then show "rc inner (childData data alias (rows ! i) (Suc k + i)) st (depth + 1)
        = Some (Inr (bs ! i))"
      using bodies by simp
  qed
  have "loopPieces rc ot ct inner data alias st depth (Suc k) rows
     = Some (Inr (map (\<lambda>b. ot @ b @ ct) bs))"
    using Cons.prems(1) bodies rest by (intro Cons.IH) simp_all
  then show ?case using first bodies by (simp add: returnR_def)
qed

lemma loop_non_array:
  "safeEval h (grp c 3) data = Inr v \<Longrightarrow> \<not> isArray v
    \<Longrightarrow> loopCallback rc h data st depth full c did = Some (Inr ([], True))"
  by (simp add: loopCallback_def Let_def liftE_def returnR_def)

lemma loop_array:
  assumes "safeEval h (grp c 3) data = Inr (JArr rows)"
    and "length bodies = length rows"
    and "\<forall>i < length rows.
           rc (grp c 5) (childData data (loopAlias (trim (grp c 2 @ '' '' @ grp c 4))) (rows ! i) i)
              st (depth + 1) = Some (Inr (bodies ! i))"
  shows "loopCallback rc h data st depth full c did
     = Some (Inr (concat (map (\<lambda>b. openTagOf (grp c 1)
                                      (loopCleanedAttrs (trim (grp c 2 @ '' '' @ grp c 4)))
                                  @ b @ ''</'' @ grp c 1 @ ''>'') bodies), True))"
proof -
  have "loopPieces rc (openTagOf (grp c 1) (loopCleanedAttrs (trim (grp c 2 @ '' '' @ grp c 4))))
          (''</'' @ grp c 1 @ ''>'') (grp c 5) data (loopAlias (trim (grp c 2 @ '' '' @ grp c 4)))
          st depth 0 rows
        = Some (Inr (map (\<lambda>b. openTagOf (grp c 1)
                                   (loopCleanedAttrs (trim (grp c 2 @ '' '' @ grp c 4)))
                                  @ b @ ''</'' @ grp c 1 @ ''>'') bodies))"
    using assms(2,3) by (intro loopPieces_ok) simp_all
  then show ?thesis using assms(1)
    by (simp add: loopCallback_def Let_def liftE_def returnR_def)
qed

lemma childData_map:
  "map_of (childData data alias row i) = (map_of data)(alias \<mapsto> row, ''$index'' \<mapsto> JNum (int i))"
  by (simp add: childData_def update_conv')

lemma alias_default: "loopAlias [] = ''item''"
  by (simp add: attr_defs scan_defs)

lemma alias_given: \<open>loopAlias ''class="a" x-row=" it "'' = ''it''\<close>
  by (simp add: attr_defs scan_defs grp_def split del: if_split)

lemma cleaned_attrs: \<open>loopCleanedAttrs ''class="a"   x-row="it"'' = ''class="a"''\<close>
  by (simp add: attr_defs scan_defs grp_def split del: if_split)

lemma item_body:
  "d \<le> 50 \<Longrightarrow> renderContent eng h (Suc (Suc m)) ''{{ item.n }}'' data st d
     = interpolate h ''{{ item.n }}'' data"
  by (simp add: renderContent.simps applyLoops.simps applyConditionals.simps applyIncludes.simps
      scan_defs split del: if_split)

lemma loop_example:
  \<open>render (engineOf [(''list'', ''<li x-for="items">{{ item.n }}</li>'')]) h
      (Suc (Suc (Suc (Suc m)))) ''list''
      (JObj [(''items'', JArr [JObj [(''n'', JNum 1)], JObj [(''n'', JNum 2)], JObj [(''n'', JNum 3)]])])
    = Some (Inr ''<li>1</li><li>2</li><li>3</li>'')\<close>
  apply (simp add: render_def name_defs createRootDataProxy_def assign_def)
  apply (subst renderContent.simps)
  apply (simp add: pass_defs scan_defs loopCallback_def attr_defs childData_def item_body
      eval_defs escapeHtml_char escapeChar_def show_defs split del: if_split)
  done

lemma loop_null_example:
  \<open>render (engineOf [(''list'', ''<ul><li x-for="items">{{ item.n }}</li></ul>'')]) h
      (Suc (Suc (Suc m))) ''list'' (JObj [(''items'', JNull)])
    = Some (Inr ''<ul></ul>'')\<close>
  apply (simp add: render_def name_defs createRootDataProxy_def assign_def)
  apply (subst renderContent.simps)
  apply (simp add: pass_defs scan_defs loopCallback_def attr_defs childData_def
      eval_defs split del: if_split)
  done



section \<open>The include pass\<close>

lemma include_cyclic:
  "map_of (templateNameToRecord eng) (normalizeName eng (grp c 1)) = Some r
    \<Longrightarrow> parseAttributes h (grp c 2) data = Inr attrs
    \<Longrightarrow> normalizeName eng (grp c 1) \<in> set st
    \<Longrightarrow> includeCallback rc eng h data st depth full c did
        = Some (Inl (CyclicInclude (st @ [normalizeName eng (grp c 1)])))"
  by (simp add: includeCallback_def Let_def liftE_def)

lemma parseAttributes_empty: "parseAttributes h [] data = Inr []"
  by (simp add: parseAttributes_def execAll.simps scan_defs)

lemma normalize_a: "normalizeName eng ''a'' = ''a''"
  by (cases "caseInsensitiveNames eng") (simp_all add: name_defs)

lemma self_inner:
  assumes "map_of (templateNameToRecord eng) ''a'' = Some r" and "d \<le> 50"
  shows "renderContent eng h (Suc (Suc m)) ''<a/>'' data [''a''] d
     = Some (Inl (CyclicInclude [''a'', ''a'']))"
  apply (subst renderContent.simps)
  using assms
  apply (simp add: pass_defs scan_defs includeCallback_def Let_def normalize_a
      parseAttributes_empty split del: if_split)
  done

lemma self_include:
  assumes "map_of (templateNameToRecord eng) ''a'' = Some r" and "content r = ''<a/>''"
  shows "render eng h (Suc (Suc (Suc (Suc m)))) ''a'' data
     = Some (Inl (CyclicInclude [''a'', ''a'']))"
  using assms
  apply (simp add: render_def normalize_a)
  apply (subst renderContent.simps)
  apply (simp add: pass_defs scan_defs includeCallback_def Let_def normalize_a
      parseAttributes_empty self_inner assign_def split del: if_split)
  done




section \<open>Patterns that cannot match\<close>

lemma matchLit_consumes: "st' \<in> set (matchLit s st) \<Longrightarrow> consumed st st' s"
proof -
  assume a: "st' \<in> set (matchLit s st)"
  obtain b a' c where st: "st = (b, a', c)" by (cases st)
  from a st have t: "take (length s) a' = s" and r: "st' = (rev s @ b, drop (length s) a', c)"
    by (auto simp: matchLit_def split: if_splits)
  have "a' = s @ drop (length s) a'" using t by (metis append_take_drop_id)
  then show ?thesis using st r by (simp add: consumed_def)
qed

lemma rxm_consumes: "st' \<in> set (rxm r st) \<Longrightarrow> \<exists>w. consumed st st' w"
proof (induction r st arbitrary: st' rule: rxm.induct)
  case (1 s st)
  then have "st' \<in> set (matchLit s st)" by (simp add: rxm.simps)
  then show ?case by (blast dest: matchLit_consumes)
next
  case (2 P b c)
  then show ?case by (simp add: rxm.simps)
next
  case (3 P b x a c)
  then show ?case by (auto simp: rxm.simps consumed_def split: if_splits)
next
  case (4 r1 r2 st)
  from 4(3) obtain st1 where a: "st1 \<in> set (rxm r1 st)" and b: "st' \<in> set (rxm r2 st1)"
    unfolding rxm.simps(4) [of r1 r2 st] by auto
  from 4(1) [OF a] obtain w1 where "consumed st st1 w1" by blast
  moreover from 4(2) [OF a b] obtain w2 where "consumed st1 st' w2" by blast
  ultimately have "consumed st st' (w1 @ w2)" by (simp add: consumed_def)
  then show ?case by blast
next
  case (5 r1 r2 st)
  from 5(3) have "st' \<in> set (rxm r1 st) \<or> st' \<in> set (rxm r2 st)"
    unfolding rxm.simps(5) [of r1 r2 st] by simp
  then show ?case using 5(1,2) by blast
next
  case (6 r st)
  from 6(3) consider "st' = st"
    | st1 where "st1 \<in> set (rxm r st)" "progress st st1" "st' \<in> set (rxm (Star r) st1)"
    unfolding rxm.simps(6) [of r st] by auto
  then show ?case
  proof cases
    case 1
    then show ?thesis by (auto simp: consumed_def)
  next
    case 2
    from 6(1) [OF 2(1)] obtain w1 where "consumed st st1 w1" by blast
    moreover from 6(2) [of st1 st'] 2 obtain w2 where "consumed st1 st' w2" by auto
    ultimately have "consumed st st' (w1 @ w2)" by (simp add: consumed_def)
    then show ?thesis by blast
  qed
next
  case (7 r st)
  from 7(3) consider "st' = st"
    | st1 where "st1 \<in> set (rxm r st)" "progress st st1" "st' \<in> set (rxm (StarLazy r) st1)"
    unfolding rxm.simps(7) [of r st] by auto
  then show ?case
  proof cases
    case 1
    then show ?thesis by (auto simp: consumed_def)
  next
    case 2
    from 7(1) [OF 2(1)] obtain w1 where "consumed st st1 w1" by blast
    moreover from 7(2) [of st1 st'] 2 obtain w2 where "consumed st1 st' w2" by auto
    ultimately have "consumed st st' (w1 @ w2)" by (simp add: consumed_def)
    then show ?thesis by blast
  qed
next
  case (8 n r b a c)
  from 8(2) obtain b' a' c' where m: "(b', a', c') \<in> set (rxm r (b, a, c))"
    and st': "st' = (b', a', (n, take (length a - length a') a) # c')"
    unfolding rxm.simps(8) [of n r b a c] by auto
  from 8(1) [OF m] obtain w where "consumed (b, a, c) (b', a', c') w" by blast
  then have "consumed (b, a, c) st' w" using st' by (simp add: consumed_def)
  then show ?case by blast
next
  case (9 n b a c)
  show ?case
  proof (cases "map_of c n")
    case None
    with 9 show ?thesis by (auto simp: rxm.simps consumed_def)
  next
    case (Some s)
    with 9 have "st' \<in> set (matchLit s (b, a, c))" by (simp add: rxm.simps)
    then show ?thesis by (blast dest: matchLit_consumes)
  qed
next
  case (10 b a c)
  then show ?case by (auto simp: rxm.simps consumed_def split: if_splits)
next
  case (11 b a c)
  then show ?case by (auto simp: rxm.simps consumed_def split: if_splits)
next
  case (12 b a c)
  then show ?case by (auto simp: rxm.simps consumed_def split: if_splits)
qed

lemma rxm_mustContain:
  "mustContain q r \<Longrightarrow> st' \<in> set (rxm r st) \<Longrightarrow> consumed st st' w \<Longrightarrow> q \<in> set w"
proof (induction r arbitrary: st st' w)
  case (Lit s)
  then have "st' \<in> set (matchLit s st)" by (simp add: rxm.simps)
  then have "consumed st st' s" by (rule matchLit_consumes)
  with Lit show ?case by (auto simp: consumed_def)
next
  case (Seq r1 r2)
  from Seq.prems(2) obtain st1 where a: "st1 \<in> set (rxm r1 st)" and b: "st' \<in> set (rxm r2 st1)"
    unfolding rxm.simps(4) [of r1 r2 st] by auto
  from rxm_consumes [OF a] obtain w1 where w1: "consumed st st1 w1" by blast
  from rxm_consumes [OF b] obtain w2 where w2: "consumed st1 st' w2" by blast
  from w1 w2 Seq.prems(3) have w: "w = w1 @ w2" by (auto simp: consumed_def)
  from Seq.prems(1) have "mustContain q r1 \<or> mustContain q r2" by simp
  then show ?case
  proof
    assume "mustContain q r1"
    from Seq.IH(1) [OF this a w1] show ?thesis using w by simp
  next
    assume "mustContain q r2"
    from Seq.IH(2) [OF this b w2] show ?thesis using w by simp
  qed
next
  case (Group n r)
  obtain b a c where st: "st = (b, a, c)" by (cases st)
  from Group.prems(2) have "st' \<in> set (rxm (Group n r) (b, a, c))" by (simp add: st)
  then obtain b' a' c' where a: "(b', a', c') \<in> set (rxm r st)"
    and st': "st' = (b', a', (n, take (length a - length a') a) # c')"
    unfolding rxm.simps(8) [of n r b a c] st by auto
  define st1 where "st1 = (b', a', c')"
  have b: "fst st' = fst st1" "fst (snd st') = fst (snd st1)" and a: "st1 \<in> set (rxm r st)"
    using st' a by (simp_all add: st1_def)
  from Group.prems(3) b have "consumed st st1 w" by (simp add: consumed_def)
  from Group.IH [OF _ a this] Group.prems(1) show ?case by simp
qed simp_all

lemma matchAt_none:
  assumes "mustContain q r" and "q \<notin> set a"
  shows "matchAt r b a = None"
proof -
  have "rxm r (b, a, []) = []"
  proof (rule ccontr)
    assume "rxm r (b, a, []) \<noteq> []"
    then obtain st' where m: "st' \<in> set (rxm r (b, a, []))" by (cases "rxm r (b, a, [])") auto
    from rxm_consumes [OF m] obtain w where w: "consumed (b, a, []) st' w" by blast
    from rxm_mustContain [OF assms(1) m w] have "q \<in> set w" .
    moreover from w have "set w \<subseteq> set a" by (auto simp: consumed_def)
    ultimately show False using assms(2) by blast
  qed
  then show ?thesis by (simp add: matchAt_def)
qed

lemma replaceCb_none:
  "mustContain q r \<Longrightarrow> q \<notin> set a \<Longrightarrow> replaceCb r f b a s = Some (Inr (a, s))"
proof (induction a arbitrary: b)
  case Nil
  then show ?case by (subst replaceCb.simps) (simp add: matchAt_none returnR_def)
next
  case (Cons x a)
  then show ?case by (subst replaceCb.simps) (simp add: matchAt_none returnR_def)
qed

lemma mustContain_regexes:
  "mustContain (CHR 0x22) forRegex" "mustContain (CHR ''<'') forRegex"
  "mustContain (CHR 0x22) ifRegex" "mustContain (CHR ''<'') ifRegex"
  "mustContain (CHR ''<'') includeTagRegex"
  "mustContain (CHR ''{'') tripleRegex" "mustContain (CHR ''{'') mustacheRegex"
  by (simp_all add: regex_defs)

lemma star_cls_head:
  "list_all P xs \<Longrightarrow> \<not> P z
    \<Longrightarrow> \<exists>tl. rxm (Star (Cls P)) (b, xs @ z # rest, c) = (rev xs @ b, z # rest, c) # tl"
proof (induction xs arbitrary: b)
  case Nil
  then show ?case by (simp add: rxm.simps(3,6))
next
  case (Cons x xs)
  from Cons.IH [of "x # b"] Cons.prems obtain tl
    where "rxm (Star (Cls P)) (x # b, xs @ z # rest, c) = (rev xs @ x # b, z # rest, c) # tl"
    by auto
  with Cons.prems show ?case
    by (simp add: rxm.simps(3) rxm.simps(6) [of _ "(b, _, c)"] progress_def)
qed

section \<open>Include chains\<close>

lemma tagName_match:
  assumes "isTagName y"
  shows "\<exists>tl. rxm tagNameRx (b, y @ ''/>'', c) = (rev y @ b, ''/>'', c) # tl"
proof -
  from assms obtain y0 ys where y: "y = y0 # ys" and a: "isAlpha y0" and w: "list_all isWordDash ys"
    by (cases y) (auto simp: isTagName_def)
  have "\<not> isWordDash (CHR ''/'')" by (simp add: class_defs)
  from star_cls_head [OF w this, of "y0 # b" "''>''" c] obtain tl
    where "rxm (Star (Cls isWordDash)) (y0 # b, ys @ ''/>'', c) = (rev ys @ y0 # b, ''/>'', c) # tl"
    by auto
  then show ?thesis using a y
    by (simp add: tagNameRx_def rxm.simps(3,4))
qed

lemma include_match:
  assumes "isTagName y"
  shows "matchAt includeTagRegex b (''<'' @ y @ ''/>'')
     = Some (''<'' @ y @ ''/>'', rev (''<'' @ y @ ''/>'') @ b, [], [(2, []), (1, y)])"
proof -
  from tagName_match [OF assms, of "CHR ''<'' # b" "[]"] obtain tl
    where t: "rxm tagNameRx (CHR ''<'' # b, y @ ''/>'', []) = (rev y @ CHR ''<'' # b, ''/>'', []) # tl"
    by auto
  show ?thesis
    by (simp add: matchAt_def includeTagRegex_def rxm.simps matchLit_def t class_defs
        split del: if_split)
qed

lemma tagName_chars:
  assumes "isTagName y"
  shows "CHR 0x22 \<notin> set y" "CHR ''{'' \<notin> set y"
proof -
  from assms obtain y0 ys where y: "y = y0 # ys" and a: "isAlpha y0" and w: "list_all isWordDash ys"
    by (cases y) (auto simp: isTagName_def)
  have q: "\<not> isAlpha (CHR 0x22)" "\<not> isWordDash (CHR 0x22)"
       "\<not> isAlpha (CHR ''{'')" "\<not> isWordDash (CHR ''{'')"
    by (simp_all add: class_defs)
  show "CHR 0x22 \<notin> set y" using y a w q by (auto simp: list_all_iff)
  show "CHR ''{'' \<notin> set y" using y a w q by (auto simp: list_all_iff)
qed

lemma plain_interpolate:
  "CHR ''{'' \<notin> set html \<Longrightarrow> interpolate h html data = Some (Inr html)"
  by (simp add: interpolate_def replaceCb_none [of "CHR ''{''"] mustContain_regexes returnR_def)

lemma plain_passes:
  assumes "CHR ''<'' \<notin> set html"
  shows "applyLoops eng h (Suc n) html data st d = Some (Inr html)"
    and "applyConditionals eng h (Suc n) html data st d = Some (Inr html)"
    and "applyIncludes eng h (Suc n) html data st d = Some (Inr html)"
  using assms
  by (simp_all add: applyLoops.simps applyConditionals.simps applyIncludes.simps
      replaceCb_none [of "CHR ''<''"] mustContain_regexes returnR_def)

lemma plain_render:
  "d \<le> 50 \<Longrightarrow> CHR ''<'' \<notin> set body \<Longrightarrow> CHR ''{'' \<notin> set body
    \<Longrightarrow> renderContent eng h (Suc (Suc n)) body data st d = Some (Inr body)"
  by (simp add: renderContent.simps plain_passes plain_interpolate)

lemma tag_passes:
  assumes "isTagName y"
  shows "applyLoops eng h (Suc n) (''<'' @ y @ ''/>'') data st d = Some (Inr (''<'' @ y @ ''/>''))"
    and "applyConditionals eng h (Suc n) (''<'' @ y @ ''/>'') data st d
           = Some (Inr (''<'' @ y @ ''/>''))"
  using tagName_chars(1) [OF assms]
  by (simp_all add: applyLoops.simps applyConditionals.simps
      replaceCb_none [of "CHR 0x22"] mustContain_regexes returnR_def)

lemma applyIncludes_tag:
  assumes "isTagName y" and "normalizeName eng y = y"
    and "map_of (templateNameToRecord eng) y = Some r" and "y \<notin> set st"
  shows "applyIncludes eng h (Suc n) (''<'' @ y @ ''/>'') data st d
     = bindR (renderContent eng h n (content r) data (st @ [y]) (d + 1))
         (\<lambda>rendered. applyIncludes eng h n rendered data st (d + 1))"
proof -
  have e: "replaceCb includeTagRegex f b [] s = Some (Inr ([], s))" for f b and s :: bool
    by (rule replaceCb_none [of "CHR ''<''"]) (simp_all add: mustContain_regexes)
  show ?thesis
    apply (subst applyIncludes.simps)
    apply (subst replaceCb.simps)
    using assms(2-4)
    apply (simp add: include_match [OF assms(1)] includeCallback_def Let_def grp_def
        parseAttributes_empty liftE_def returnR_def assign_def e
        del: append.simps)
    apply (cases "renderContent eng h n (content r) data (st @ [y]) (Suc d)")
     apply simp
    subgoal for x by (cases x) simp_all
    done
qed

lemma include_render:
  assumes "isTagName y" and "normalizeName eng y = y"
    and "map_of (templateNameToRecord eng) y = Some r" and "y \<notin> set st" and "d \<le> 50"
  shows "renderContent eng h (Suc (Suc n)) (''<'' @ y @ ''/>'') data st d
     = bindR (renderContent eng h n (content r) data (st @ [y]) (d + 1))
         (\<lambda>rendered. bindR (applyIncludes eng h n rendered data st (d + 1))
            (\<lambda>html3. interpolate h html3 data))"
  using assms(5)
  apply (subst renderContent.simps)
  apply (simp add: tag_passes [OF assms(1)] applyIncludes_tag [OF assms(1-4)] del: append.simps)
  apply (cases "renderContent eng h n (content r) data (st @ [y]) (Suc d)")
   apply simp
  subgoal for x by (cases x) simp_all
  done

lemma depth_exceeded:
  "50 < depth \<Longrightarrow> renderContent eng h fuel src data st depth = Some (Inl RenderDepthExceeded)"
  by (cases fuel) (simp_all add: renderContent.simps)


lemma chain_ok:
  "ns \<noteq> [] \<Longrightarrow> chainIn eng ns body \<Longrightarrow> distinct ns \<Longrightarrow> list_all isTagName ns
    \<Longrightarrow> list_all (\<lambda>x. normalizeName eng x = x) ns \<Longrightarrow> set (tl ns) \<inter> set st = {}
    \<Longrightarrow> d + length ns \<le> 51 \<Longrightarrow> CHR ''<'' \<notin> set body \<Longrightarrow> CHR ''{'' \<notin> set body
    \<Longrightarrow> renderContent eng h (2 * length ns + k) (chainContent ns body) data st d = Some (Inr body)"
proof (induction ns arbitrary: st d)
  case Nil
  then show ?case by simp
next
  case (Cons x xs)
  show ?case
  proof (cases xs)
    case Nil
    with Cons.prems show ?thesis by (simp add: plain_render)
  next
    case (Cons y ys)
    from Cons.prems(2) Cons obtain r where r: "map_of (templateNameToRecord eng) y = Some r"
      and c: "content r = chainContent xs body"
      by (auto split: option.splits)
    have tag: "isTagName y" and nm: "normalizeName eng y = y"
      using Cons.prems(4,5) Cons by simp_all
    have nst: "y \<notin> set st" using Cons.prems(6) Cons by auto
    have d: "d \<le> 50" using Cons.prems(7) Cons by simp
    have inner: "renderContent eng h (2 * length xs + k) (chainContent xs body) data (st @ [y]) (d + 1)
        = Some (Inr body)"
    proof (rule Cons.IH)
      show "xs \<noteq> []" using Cons by simp
      show "chainIn eng xs body" using Cons.prems(2) by simp
      show "distinct xs" using Cons.prems(3) by simp
      show "list_all isTagName xs" using Cons.prems(4) by simp
      show "list_all (\<lambda>x. normalizeName eng x = x) xs" using Cons.prems(5) by simp
      show "set (tl xs) \<inter> set (st @ [y]) = {}" using Cons.prems(3,6) Cons by auto
      show "d + 1 + length xs \<le> 51" using Cons.prems(7) by simp
      show "CHR ''<'' \<notin> set body" "CHR ''{'' \<notin> set body" using Cons.prems(8,9) by simp_all
    qed
    have fuel: "2 * length (x # xs) + k = Suc (Suc (2 * length xs + k))" by simp
    have fuel': "2 * length xs + k = Suc (Suc (2 * length ys + k))" using Cons by simp
    have again: "applyIncludes eng h (2 * length xs + k) body data st (d + 1) = Some (Inr body)"
      unfolding fuel' using Cons.prems(8) by (rule plain_passes(3))
    have cc: "chainContent (x # xs) body = ''<'' @ y @ ''/>''" using Cons by simp
    show ?thesis
      unfolding fuel cc
      by (simp only: include_render [OF tag nm r nst d] c inner bindR_simps again
          plain_interpolate [OF Cons.prems(9)])
  qed
qed

lemma chain_deep:
  "ns \<noteq> [] \<Longrightarrow> chainIn eng ns body \<Longrightarrow> distinct ns \<Longrightarrow> list_all isTagName ns
    \<Longrightarrow> list_all (\<lambda>x. normalizeName eng x = x) ns \<Longrightarrow> set (tl ns) \<inter> set st = {}
    \<Longrightarrow> 51 < d + length ns
    \<Longrightarrow> renderContent eng h (2 * (51 - d) + k) (chainContent ns body) data st d
        = Some (Inl RenderDepthExceeded)"
proof (induction ns arbitrary: st d)
  case Nil
  then show ?case by simp
next
  case (Cons x xs)
  show ?case
  proof (cases "50 < d")
    case True
    then show ?thesis by (rule depth_exceeded)
  next
    case False
    then have d: "d \<le> 50" by simp
    with Cons.prems(7) obtain y ys where xs: "xs = y # ys" by (cases xs) auto
    from Cons.prems(2) xs obtain r where r: "map_of (templateNameToRecord eng) y = Some r"
      and c: "content r = chainContent xs body"
      by (auto split: option.splits)
    have tag: "isTagName y" and nm: "normalizeName eng y = y"
      using Cons.prems(4,5) xs by simp_all
    have nst: "y \<notin> set st" using Cons.prems(6) xs by auto
    have inner: "renderContent eng h (2 * (51 - (d + 1)) + k) (chainContent xs body) data
        (st @ [y]) (d + 1) = Some (Inl RenderDepthExceeded)"
    proof (rule Cons.IH)
      show "xs \<noteq> []" using xs by simp
      show "chainIn eng xs body" using Cons.prems(2) by simp
      show "distinct xs" using Cons.prems(3) by simp
      show "list_all isTagName xs" using Cons.prems(4) by simp
      show "list_all (\<lambda>x. normalizeName eng x = x) xs" using Cons.prems(5) by simp
      show "set (tl xs) \<inter> set (st @ [y]) = {}" using Cons.prems(3,6) xs by auto
      show "51 < d + 1 + length xs" using Cons.prems(7) by simp
    qed
    have fuel: "2 * (51 - d) + k = Suc (Suc (2 * (51 - (d + 1)) + k))" using d by simp
    have cc: "chainContent (x # xs) body = ''<'' @ y @ ''/>''" using xs by simp
    show ?thesis
      unfolding fuel cc
      by (simp only: include_render [OF tag nm r nst d] c inner bindR_simps)
  qed
qed

lemma chain_head:
  "ns \<noteq> [] \<Longrightarrow> chainIn eng ns body \<Longrightarrow> list_all (\<lambda>x. normalizeName eng x = x) ns
    \<Longrightarrow> render eng h fuel (hd ns) v
        = renderContent eng h fuel (chainContent ns body) (createRootDataProxy v) [] 0"
  by (cases ns) (auto simp: render_def split: option.splits)

lemma loopPieces_depth:
  "loopPieces (atDepth (Suc depth) rc) ot ct inner data alias st depth k rows
     = loopPieces rc ot ct inner data alias st depth k rows"
  by (induction rows arbitrary: k) (simp_all add: atDepth_def)

lemma loopCallback_depth:
  "loopCallback (atDepth (depth + 1) rc) h data st depth = loopCallback rc h data st depth"
  by (intro ext) (simp add: loopCallback_def Let_def loopPieces_depth cong: if_cong)

lemma ifCallback_depth:
  "ifCallback (atDepth (depth + 1) rc) h data st depth = ifCallback rc h data st depth"
  by (intro ext) (simp add: ifCallback_def Let_def atDepth_def cong: if_cong)

lemma includeCallback_depth:
  "includeCallback (atDepth (depth + 1) rc) eng h data st depth
     = includeCallback rc eng h data st depth"
  by (intro ext) (simp add: includeCallback_def Let_def atDepth_def cong: if_cong option.case_cong)

lemma passes_depth:
  "applyLoops eng h (Suc n) html data st d =
     bindR (replaceCb forRegex
              (loopCallback (atDepth (d + 1) (renderContent eng h n)) h data st d) [] html False)
       (\<lambda>(result, didReplace).
          if didReplace then applyLoops eng h n result data st (d + 1) else Some (Inr result))"
  "applyConditionals eng h (Suc n) html data st d =
     bindR (replaceCb ifRegex
              (ifCallback (atDepth (d + 1) (renderContent eng h n)) h data st d) [] html False)
       (\<lambda>(result, didReplace).
          if didReplace then applyConditionals eng h n result data st (d + 1)
          else Some (Inr result))"
  "applyIncludes eng h (Suc n) html data st d =
     bindR (replaceCb includeTagRegex
              (includeCallback (atDepth (d + 1) (renderContent eng h n)) eng h data st d)
              [] html False)
       (\<lambda>(result, didReplace).
          if didReplace then applyIncludes eng h n result data st (d + 1)
          else Some (Inr result))"
  by (simp_all only: loopCallback_depth ifCallback_depth includeCallback_depth
      applyLoops.simps applyConditionals.simps applyIncludes.simps returnR_def)



lemma deepChain_facts:
  "deepChain \<noteq> []" "distinct deepChain" "list_all isTagName deepChain" "length deepChain = 52"
  "hd deepChain = ''aa''"
  "list_all (\<lambda>x. normalizeName (engineOf ts) x = x) deepChain"
  by (simp_all add: deepChain_def isTagName_def class_defs name_defs)

lemma map_of_chainTemplates:
  "distinct (pre @ x # rest) \<Longrightarrow>
   map_of (templateNameToRecord (engineOf (chainTemplates (pre @ x # rest) body))) x
     = Some \<lparr>name = x, filePath = ''views/'' @ x @ ''.html'',
             content = chainContent (x # rest) body\<rparr>"
  by (induction pre) auto

lemma chainIn_templates:
  "distinct (pre @ xs) \<Longrightarrow> chainIn (engineOf (chainTemplates (pre @ xs) body)) xs body"
proof (induction xs arbitrary: pre)
  case Nil
  then show ?case by simp
next
  case (Cons x xs)
  from Cons.prems have "distinct ((pre @ [x]) @ xs)" by simp
  from Cons.IH [OF this] have "chainIn (engineOf (chainTemplates (pre @ x # xs) body)) xs body"
    by simp
  then show ?case
    using map_of_chainTemplates [OF Cons.prems, of body] by simp
qed

lemma deepChain_in:
  "chainIn (engineOf (chainTemplates deepChain ''ok'')) deepChain ''ok''"
  using chainIn_templates [of "[]" deepChain "''ok''"] deepChain_facts(2) by simp




section \<open>Reloading\<close>

lemma scanEntries_registry:
  "scanEntries (eng\<lparr>templateNameToRecord := r\<rparr>) directory entries reg
     = scanEntries eng directory entries reg"
proof (induction eng directory entries reg rule: scanEntries.induct)
  case (1 eng directory reg)
  show ?case by simp
next
  case (2 eng directory entryName entries rest reg)
  obtain reg' out where r: "scanEntries eng (directory @ ''/'' @ entryName) entries reg = (reg', out)"
    by (cases "scanEntries eng (directory @ ''/'' @ entryName) entries reg")
  show ?case
  proof (cases out)
    case None
    from 2(2) [OF r [symmetric] None] 2(1) r None show ?thesis by simp
  next
    case (Some e)
    with 2(1) r show ?thesis by simp
  qed
next
  case (3 eng directory entryName c rest reg)
  show ?case
  proof (cases "list_ex (\<lambda>ext. endsWith (toLowerCase entryName) ext) (extensions eng)")
    case False
    from 3(1) [OF refl False] False show ?thesis by (simp add: Let_def)
  next
    case True
    show ?thesis
    proof (cases c)
      case None
      with True show ?thesis by (simp add: Let_def)
    next
      case (Some raw)
      have t: "\<not> \<not> list_ex (endsWith (toLowerCase entryName)) (extensions eng)"
        using True by simp
      from 3(2) [OF refl t Some refl refl refl] True Some show ?thesis
        by (simp add: Let_def extractTemplateName_def normalizeName_def)
    qed
  qed
qed

lemma scanDirectories_registry:
  "scanDirectories (eng\<lparr>templateNameToRecord := r\<rparr>) fs ds reg = scanDirectories eng fs ds reg"
  by (induction ds arbitrary: reg)
    (simp_all add: scanDirectory_def scanEntries_registry cong: option.case_cong fsnode.case_cong)

lemma scanEntries_grows:
  "set (map fst reg) \<subseteq> set (map fst (fst (scanEntries eng directory entries reg)))"
proof (induction eng directory entries reg rule: scanEntries.induct)
  case (1 eng directory reg)
  show ?case by simp
next
  case (2 eng directory entryName entries rest reg)
  obtain reg' out where r: "scanEntries eng (directory @ ''/'' @ entryName) entries reg = (reg', out)"
    by (cases "scanEntries eng (directory @ ''/'' @ entryName) entries reg")
  from 2(1) r have a: "set (map fst reg) \<subseteq> set (map fst reg')" by simp
  show ?case
  proof (cases out)
    case None
    from 2(2) [OF r [symmetric] None]
    have "set (map fst reg') \<subseteq> set (map fst (fst (scanEntries eng directory rest reg')))" .
    with a r None show ?thesis by auto
  next
    case (Some e)
    with a r show ?thesis by simp
  qed
next
  case (3 eng directory entryName c rest reg)
  show ?case
  proof (cases "list_ex (\<lambda>ext. endsWith (toLowerCase entryName) ext) (extensions eng)")
    case False
    from 3(1) [OF refl False] False show ?thesis by (simp add: Let_def)
  next
    case True
    show ?thesis
    proof (cases c)
      case None
      with True show ?thesis by (simp add: Let_def)
    next
      case (Some raw)
      define nm where "nm = (case extractTemplateName eng raw of
                                None \<Rightarrow> basename entryName (extname entryName)
                              | Some n \<Rightarrow> n)"
      define rcd where "rcd = \<lparr>name = normalizeName eng nm,
         filePath = directory @ ''/'' @ entryName, content = raw\<rparr>"
      have t: "\<not> \<not> list_ex (endsWith (toLowerCase entryName)) (extensions eng)"
        using True by simp
      from 3(2) [OF refl t Some nm_def refl rcd_def]
      have "set (map fst (AList.update (normalizeName eng nm) rcd reg))
          \<subseteq> set (map fst (fst (scanEntries eng directory rest
                (AList.update (normalizeName eng nm) rcd reg))))" .
      moreover have "set (map fst reg) \<subseteq> set (map fst (AList.update (normalizeName eng nm) rcd reg))"
        using dom_update [of "normalizeName eng nm" rcd reg] by auto
      ultimately show ?thesis using True Some
        by (simp add: Let_def nm_def rcd_def)
    qed
  qed
qed

lemmas scan_eval = Let_def reload_def scanDirectory_def extractTemplateName_def basename_def extname_def
  endsWith_def litCI_def DEFAULT_NAME_DIRECTIVE_def search.simps

lemma reload_good:
  \<open>reload staleEngine goodViews =
     (staleEngine\<lparr>templateNameToRecord :=
        [(''usercard'', \<lparr>name = ''usercard'', filePath = ''views/UserCard.html'',
                          content = ''<b>{{ name }}</b>''\<rparr>),
         (''main_view'', \<lparr>name = ''main_view'', filePath = ''views/layout/main.tpl'',
                           content = ''<!-- @template name="Main_View" -->{{{ content }}}''\<rparr>)]\<rparr>,
      None)\<close>
  by (simp add: staleEngine_def engineOf_def goodViews_def scan_eval scan_defs name_defs
      split del: if_split)



end
